theory Spec2Isabelle
  imports Complex_Main "HOL-Library.Word" "HOL-Library.Signed_Division"
begin

section \<open>Result codes and attribute types\<close>

text \<open>
  The result codes the table layer, the parser and their collaborators return.
  Only the enumerators that the modelled code mentions are listed.
\<close>

datatype RC =
    SUCCESS
  | INVALID_ARGUMENT
  | SCHEMA_TABLE_EXIST
  | SCHEMA_TABLE_NAME_ILLEGAL
  | SCHEMA_INDEX_EXIST
  | SCHEMA_FIELD_MISSING
  | SCHEMA_FIELD_NAME_ILLEGAL
  | SCHEMA_FIELD_TYPE_MISMATCH
  | SCHEMA_FIELD_NOT_EXIST
  | RECORD_EOF
  | RECORD_INVALID_KEY
  | RECORD_NOT_EXIST
  | IOERR
  | GENERIC_ERROR

datatype AttrType = UNDEFINED | CHARS | INTS | FLOATS | DATES | TEXTS | NULLS

section \<open>Tuple values (sql/executor/value.h)\<close>

text \<open>
  \<open>TupleValue\<close> is an abstract class with three subclasses; each carries its payload
  and an \<open>is_null_\<close> flag, read by the virtual \<open>is_null()\<close> (here \<open>tuple_is_null\<close>). The \<open>int\<close> payload is a 32-bit machine integer. The
  \<open>float\<close> payload is modelled as a real number: rounding and NaN are not modelled,
  and nothing proved below looks at the arithmetic of the non-NULL branch of
  \<open>FloatValue::compare\<close>. The string payload is a \<open>std::string\<close>.
\<close>

datatype TupleValue =
    IntValue "32 word" bool
  | FloatValue real bool
  | StringValue string bool

fun tuple_is_null :: "TupleValue \<Rightarrow> bool" where
  "tuple_is_null (IntValue v n) = n"
| "tuple_is_null (FloatValue v n) = n"
| "tuple_is_null (StringValue v n) = n"

text \<open>
  \<open>c_str\<close>: the C string a \<open>std::string\<close> hands to \<open>strcmp\<close> ends at the first
  NUL byte.
\<close>

definition c_str :: "string \<Rightarrow> string" where
  "c_str s = takeWhile (\<lambda>c. c \<noteq> CHR 0x00) s"

text \<open>
  \<open>strcmp\<close> on two C strings. The C standard fixes only the sign of the result; the
  model returns the difference of the first pair of differing bytes (read as
  unsigned), the end of a string counting as byte 0.
\<close>

fun strcmp :: "string \<Rightarrow> string \<Rightarrow> int" where
  "strcmp [] [] = 0"
| "strcmp [] (y # ys) = - of_char y"
| "strcmp (x # xs) [] = of_char x"
| "strcmp (x # xs) (y # ys) = (if x = y then strcmp xs ys else of_char x - of_char y)"

text \<open>
  \<open>compare\<close> dispatches on the kind of the receiver. The NULL test comes first and
  asks the other operand through the virtual \<open>is_null()\<close>, so it is right for every
  pair of kinds. After it the code casts \<open>other\<close> to the receiver's class without a
  check: for two non-NULL operands of different kinds the C++ reads the wrong
  object layout, which the model reports as \<open>None\<close>.
  \<open>IntValue::compare\<close> returns \<open>value_ - int_other.value_\<close> computed in 32-bit
  \<open>int\<close>; the model wraps around on overflow.
\<close>

fun compare :: "TupleValue \<Rightarrow> TupleValue \<Rightarrow> int option" where
  "compare (IntValue a an) other =
     (if an \<or> tuple_is_null other then Some (- 1)
      else (case other of
              IntValue b bn \<Rightarrow> Some (sint (a - b))
            | _ \<Rightarrow> None))"
| "compare (FloatValue a an) other =
     (if an \<or> tuple_is_null other then Some (- 1)
      else (case other of
              FloatValue b bn \<Rightarrow>
                (let result = a - b in
                 if result > - (1 / 1000000) \<and> result < 1 / 1000000 then Some 0
                 else if result > 0 then Some 1
                 else if result < 0 then Some (- 1)
                 else Some 0)
            | _ \<Rightarrow> None))"
| "compare (StringValue a an) other =
     (if an \<or> tuple_is_null other then Some (- 1)
      else (case other of
              StringValue b bn \<Rightarrow> Some (strcmp (c_str a) (c_str b))
            | _ \<Rightarrow> None))"

section \<open>Date literals (sql/parser/parse.cpp)\<close>

definition is_digit :: "char \<Rightarrow> bool" where
  "is_digit c = (48 \<le> (of_char c :: nat) \<and> (of_char c :: nat) \<le> 57)"

text \<open>
  \<open>check_date_format\<close> applies \<open>std::regex_match\<close>, which must match the whole
  string, with the pattern \<open>^\d{4}-\d{1,2}-\d{1,2}\<close>. The model reads the string from
  the left: four digits, a dash, one or two digits, a dash, one or two digits, the end.
\<close>

definition match_day :: "string \<Rightarrow> bool" where
  "match_day r =
     (case r of
        [] \<Rightarrow> False
      | d1 # r1 \<Rightarrow> is_digit d1 \<and>
          (case r1 of
             [] \<Rightarrow> True
           | d2 # r2 \<Rightarrow> is_digit d2 \<and> r2 = []))"

definition match_month_day :: "string \<Rightarrow> bool" where
  "match_month_day r =
     (case r of
        [] \<Rightarrow> False
      | m1 # r1 \<Rightarrow> is_digit m1 \<and>
          (case r1 of
             [] \<Rightarrow> False
           | c # r2 \<Rightarrow>
               if c = CHR ''-'' then match_day r2
               else is_digit c \<and>
                 (case r2 of
                    [] \<Rightarrow> False
                  | c2 # r3 \<Rightarrow> c2 = CHR ''-'' \<and> match_day r3)))"

definition check_date_format :: "string \<Rightarrow> bool" where
  "check_date_format s =
     (case s of
        y1 # y2 # y3 # y4 # c # r \<Rightarrow>
          is_digit y1 \<and> is_digit y2 \<and> is_digit y3 \<and> is_digit y4 \<and> c = CHR ''-'' \<and> match_month_day r
      | _ \<Rightarrow> False)"

text \<open>
  \<open>s[i] - '0'\<close>: a \<open>char\<close> promoted to \<open>int\<close>. \<open>char\<close> is signed on the platforms
  the program builds for, so bytes from 0x80 on are negative.
\<close>

definition char_to_int :: "char \<Rightarrow> int" where
  "char_to_int c = (if (of_char c :: int) < 128 then of_char c else of_char c - 256)"

text \<open>
  \<open>date2num\<close> walks the string from its last character to its first, with the
  accumulator \<open>num\<close> and the multiplier \<open>mul\<close>. The first argument of the loop is
  \<open>i + 1\<close>. The C \<open>int\<close>s are modelled as unbounded integers: on a string that
  passes \<open>check_date_format\<close> (the only caller checks it first) \<open>num\<close> stays below
  \<open>10^8\<close> and \<open>mul\<close> below \<open>10^9\<close>, so no 32-bit overflow occurs there.
\<close>

fun date2num_loop :: "nat \<Rightarrow> string \<Rightarrow> int \<Rightarrow> int \<Rightarrow> int \<Rightarrow> int" where
  "date2num_loop 0 s len num mul = num"
| "date2num_loop (Suc i) s len num mul =
     (if s ! i \<noteq> CHR ''-'' then
        date2num_loop i s len (num + mul * (char_to_int (s ! i) - 48)) (mul * 10)
      else if int i = len - 2 then date2num_loop i s len num (mul * 10)
      else if int i = len - 5 then
        (if mul = 1000 then date2num_loop i s len num (mul * 10)
         else date2num_loop i s len num mul)
      else if int i = len - 4 then date2num_loop i s len num (mul * 10)
      else date2num_loop i s len num mul)"

definition date2num :: "string \<Rightarrow> int" where
  "date2num s = date2num_loop (length s) s (int (length s)) 0 1"

text \<open>
  \<open>check_date_data_convert(s, t)\<close> returns the number and leaves the verdict in the
  reference parameter \<open>t\<close>: it only ever clears it. The model returns both. C's
  \<open>/\<close> and \<open>%\<close> truncate towards zero (\<open>sdiv\<close>, \<open>smod\<close>).
\<close>

definition check_date_data_convert :: "string \<Rightarrow> int \<Rightarrow> int \<times> int" where
  "check_date_data_convert s t =
     (let num = date2num s;
          t1 = (if num < 19700101 \<or> num > 20380131 then 0 else t);
          days = num smod 100;
          t2 = (if days > 31 \<or> days < 1 then 0 else t1);
          mons = (num smod 10000) sdiv 100;
          t3 = (if mons > 12 \<or> mons < 1 then 0 else t2);
          years = num sdiv 10000;
          t4 = (if mons = 2 then
                  (if years smod 4 = 0 then (if days > 29 then 0 else t3)
                   else (if days > 28 then 0 else t3))
                else t3);
          t5 = (if mons = 4 \<or> mons = 6 \<or> mons = 9 \<or> mons = 11 then
                  (if days > 30 then 0 else t4)
                else (if days > 31 then 0 else t4))
      in (num, t5))"

text \<open>
  The \<open>Value\<close> the parser hands to the table: a type tag, a heap buffer and the NULL
  flag. \<open>data\<close> is the allocated buffer, byte for byte.
\<close>

record Value =
  type :: AttrType
  data :: string
  is_null :: bool

text \<open>The four bytes of a 32-bit \<open>int\<close> in memory, least significant first.\<close>

definition int_bytes :: "int \<Rightarrow> string" where
  "int_bytes n = map (\<lambda>k. char_of (n div 256 ^ k)) [0, 1, 2, 3]"

text \<open>\<open>strdup\<close>: the characters and the terminating NUL.\<close>

definition strdup :: "string \<Rightarrow> string" where
  "strdup v = v @ [CHR 0x00]"

definition value_init_string :: "string \<Rightarrow> bool \<Rightarrow> Value" where
  "value_init_string v isnull =
     (if isnull then \<lparr>type = NULLS, data = strdup v, is_null = isnull\<rparr>
      else if check_date_format v then
        (let (date_num, t) = check_date_data_convert v 1 in
         if t \<noteq> 0 then \<lparr>type = DATES, data = int_bytes date_num, is_null = isnull\<rparr>
         else \<lparr>type = CHARS, data = strdup v, is_null = isnull\<rparr>)
      else \<lparr>type = CHARS, data = strdup v, is_null = isnull\<rparr>)"

definition value_init_integer :: "int \<Rightarrow> bool \<Rightarrow> Value" where
  "value_init_integer v isnull = \<lparr>type = INTS, data = int_bytes v, is_null = isnull\<rparr>"

subsection \<open>What a date literal denotes\<close>

text \<open>
  The reading of a date literal that the specification gives, written without
  reference to the code: the three dash-separated fields are decimal numbers, the
  literal denotes the packed integer \<open>YYYYMMDD\<close>, and it is a possible date when the
  month is in 1..12 and the day within the length of that month in the Gregorian
  calendar.
\<close>

definition decimal :: "string \<Rightarrow> int" where
  "decimal ds = foldl (\<lambda>a c. 10 * a + (int (of_char c) - 48)) 0 ds"

definition date_fields :: "string \<Rightarrow> int \<times> int \<times> int" where
  "date_fields s =
     (let y = takeWhile (\<lambda>c. c \<noteq> CHR ''-'') s;
          r = drop 1 (dropWhile (\<lambda>c. c \<noteq> CHR ''-'') s);
          m = takeWhile (\<lambda>c. c \<noteq> CHR ''-'') r;
          d = drop 1 (dropWhile (\<lambda>c. c \<noteq> CHR ''-'') r)
      in (decimal y, decimal m, decimal d))"

definition leap_year :: "int \<Rightarrow> bool" where
  "leap_year y = ((y mod 4 = 0 \<and> y mod 100 \<noteq> 0) \<or> y mod 400 = 0)"

definition days_in_month :: "int \<Rightarrow> int \<Rightarrow> int" where
  "days_in_month y m =
     (if m = 2 then (if leap_year y then 29 else 28)
      else if m = 4 \<or> m = 6 \<or> m = 9 \<or> m = 11 then 30
      else 31)"

definition denotes_valid_date :: "string \<Rightarrow> bool" where
  "denotes_valid_date s =
     (case date_fields s of (y, m, d) \<Rightarrow>
        19700101 \<le> y * 10000 + m * 100 + d \<and> y * 10000 + m * 100 + d \<le> 20380131
        \<and> 1 \<le> m \<and> m \<le> 12 \<and> 1 \<le> d \<and> d \<le> days_in_month y m)"

section \<open>C memory\<close>

text \<open>
  Record buffers are \<open>char\<close> arrays, modelled as lists of bytes. Two things the
  program reads are not values it wrote: the content of a buffer fresh from
  \<open>new char[n]\<close>, and the bytes that follow a source buffer when \<open>memcpy\<close> is asked
  for more bytes than the buffer holds. Both are inputs of the model, collected in
  \<open>junk\<close>; every theorem below holds for all of them. (C leaves these reads
  undefined; the model describes the usual outcome, in which some byte is read.)
\<close>

record junk =
  uninit :: "nat \<Rightarrow> char"
  beyond :: "nat \<Rightarrow> char"

definition new_char_array :: "junk \<Rightarrow> nat \<Rightarrow> string" where
  "new_char_array j n = map (uninit j) [0..<n]"

text \<open>The \<open>n\<close> bytes a \<open>memcpy\<close> reads at the start of the buffer \<open>src\<close>.\<close>

definition read_bytes :: "junk \<Rightarrow> string \<Rightarrow> nat \<Rightarrow> string" where
  "read_bytes j src n = take n src @ map (beyond j) [0..<n - length src]"

text \<open>
  \<open>memcpy dst off bytes\<close>: the buffer \<open>dst\<close> after \<open>bytes\<close> have been copied to
  \<open>dst + off\<close>. Bytes that would land past the end of \<open>dst\<close> are not part of the
  buffer and are left out of the model.
\<close>

definition memcpy :: "string \<Rightarrow> nat \<Rightarrow> string \<Rightarrow> string" where
  "memcpy dst off bytes = take (length dst) (take off dst @ bytes @ drop (off + length bytes) dst)"

text \<open>\<open>strlen\<close>: the number of bytes before the first NUL.\<close>

definition strlen :: "string \<Rightarrow> nat" where
  "strlen s = length (takeWhile (\<lambda>c. c \<noteq> CHR 0x00) s)"

text \<open>The byte \<open>memcpy(.., &b, 1)\<close> copies from a \<open>bool\<close>.\<close>

definition bool_byte :: "bool \<Rightarrow> char" where
  "bool_byte b = (if b then CHR 0x01 else CHR 0x00)"

section \<open>Table metadata\<close>

text \<open>
  \<open>FieldMeta\<close>, \<open>IndexMeta\<close> and \<open>TableMeta\<close> are declared outside the files at hand;
  the records list the accessors that \<open>table.cpp\<close> calls. \<open>sys_field_num\<close> is the
  number of leading system fields, a constant of \<open>TableMeta\<close> that the model keeps
  as a field.
\<close>

record FieldMeta =
  field_name :: string
  field_type :: AttrType
  field_offset :: nat
  field_len :: nat
  field_nullable :: bool

record IndexMeta =
  index_name :: string
  index_field :: string

record TableMeta =
  table_name :: string
  field_metas :: "FieldMeta list"
  sys_field_num :: nat
  index_metas :: "IndexMeta list"
  record_size :: nat

definition field_num :: "TableMeta \<Rightarrow> nat" where
  "field_num m = length (field_metas m)"

text \<open>
  Modelled from the spec: the lookups of \<open>TableMeta\<close> (\<open>index(name)\<close>,
  \<open>find_index_by_field\<close>, \<open>field(name)\<close>, \<open>find_field_index_by_name\<close>) are not in the
  files at hand. Each returns the first entry with the given name, and a null
  pointer (or \<open>-1\<close>) when there is none.
\<close>

definition meta_index :: "TableMeta \<Rightarrow> string \<Rightarrow> IndexMeta option" where
  "meta_index m name = find (\<lambda>x. index_name x = name) (index_metas m)"

definition find_index_by_field :: "TableMeta \<Rightarrow> string \<Rightarrow> IndexMeta option" where
  "find_index_by_field m fname = find (\<lambda>x. index_field x = fname) (index_metas m)"

definition meta_field :: "TableMeta \<Rightarrow> string \<Rightarrow> FieldMeta option" where
  "meta_field m name = find (\<lambda>f. field_name f = name) (field_metas m)"

fun find_pos :: "('a \<Rightarrow> bool) \<Rightarrow> 'a list \<Rightarrow> nat option" where
  "find_pos P [] = None"
| "find_pos P (x # xs) = (if P x then Some 0 else map_option Suc (find_pos P xs))"

definition find_field_index_by_name :: "TableMeta \<Rightarrow> string \<Rightarrow> int" where
  "find_field_index_by_name m name =
     (case find_pos (\<lambda>f. field_name f = name) (field_metas m) of
        None \<Rightarrow> - 1
      | Some i \<Rightarrow> int i)"

text \<open>
  The offset of the null bitmap as both \<open>make_record\<close> and \<open>update_record\<close> compute
  it: the end of the last field.
\<close>

definition null_field_index :: "TableMeta \<Rightarrow> nat" where
  "null_field_index m =
     (let last_field = field_metas m ! (field_num m - 1)
      in field_offset last_field + field_len last_field)"

section \<open>Record manager\<close>

record RID =
  page_num :: nat
  slot_num :: nat

record Record =
  rid :: RID
  rec_data :: string

text \<open>
  Modelled from the spec: \<open>RecordFileHandler\<close> is not in the files at hand. The
  data file is a sequence of pages; a page is a row of slots, each free (\<open>None\<close>) or
  holding the bytes of a record. \<open>insert_record(bytes, size)\<close> takes the first free
  slot of the first page that has one, creates a page if there is none, and copies
  \<open>size\<close> bytes; \<open>delete_record\<close> frees the slot; \<open>update_record\<close> overwrites in
  place; \<open>get_record\<close> reads a live slot. \<open>handler_fault\<close> stands for an I/O
  failure of the next insertion: when it is not \<open>SUCCESS\<close> the insertion returns it
  and changes nothing.
\<close>

type_synonym page = "string option list"

record RecordFileHandler =
  record_capacity :: nat
  pages :: "page list"
  handler_fault :: RC

definition get_record :: "RecordFileHandler \<Rightarrow> RID \<Rightarrow> string option" where
  "get_record h r =
     (if page_num r < length (pages h) \<and> slot_num r < length (pages h ! page_num r)
      then pages h ! page_num r ! slot_num r
      else None)"

definition set_slot :: "RecordFileHandler \<Rightarrow> RID \<Rightarrow> string option \<Rightarrow> RecordFileHandler" where
  "set_slot h r v = h\<lparr>pages := (pages h)[page_num r := (pages h ! page_num r)[slot_num r := v]]\<rparr>"

fun find_free_slot :: "nat \<Rightarrow> page list \<Rightarrow> RID option" where
  "find_free_slot p [] = None"
| "find_free_slot p (pg # pgs) =
     (case find_pos (\<lambda>s. s = None) pg of
        Some s \<Rightarrow> Some \<lparr>page_num = p, slot_num = s\<rparr>
      | None \<Rightarrow> find_free_slot (Suc p) pgs)"

definition handler_insert_record ::
  "junk \<Rightarrow> RecordFileHandler \<Rightarrow> string \<Rightarrow> nat \<Rightarrow> RC \<times> RecordFileHandler \<times> RID" where
  "handler_insert_record j h bytes sz =
     (if handler_fault h \<noteq> SUCCESS then (handler_fault h, h, \<lparr>page_num = 0, slot_num = 0\<rparr>)
      else
        (case find_free_slot 0 (pages h) of
           Some r \<Rightarrow> (SUCCESS, set_slot h r (Some (read_bytes j bytes sz)), r)
         | None \<Rightarrow>
             if record_capacity h = 0 then (IOERR, h, \<lparr>page_num = 0, slot_num = 0\<rparr>)
             else
               (SUCCESS,
                h\<lparr>pages := pages h @
                     [Some (read_bytes j bytes sz) # replicate (record_capacity h - 1) None]\<rparr>,
                \<lparr>page_num = length (pages h), slot_num = 0\<rparr>)))"

definition handler_delete_record :: "RecordFileHandler \<Rightarrow> RID \<Rightarrow> RC \<times> RecordFileHandler" where
  "handler_delete_record h r =
     (case get_record h r of
        None \<Rightarrow> (RECORD_NOT_EXIST, h)
      | Some b \<Rightarrow> (SUCCESS, set_slot h r None))"

definition handler_update_record :: "RecordFileHandler \<Rightarrow> Record \<Rightarrow> RC \<times> RecordFileHandler" where
  "handler_update_record h rec =
     (case get_record h (rid rec) of
        None \<Rightarrow> (RECORD_NOT_EXIST, h)
      | Some b \<Rightarrow> (SUCCESS, set_slot h (rid rec) (Some (rec_data rec))))"

text \<open>
  The live records in the order a file scan meets them: page by page, slot by slot,
  free slots skipped.
\<close>

definition page_records :: "nat \<Rightarrow> page \<Rightarrow> Record list" where
  "page_records p pg =
     concat (map (\<lambda>(s, v). case v of None \<Rightarrow> []
                            | Some b \<Rightarrow> [\<lparr>rid = \<lparr>page_num = p, slot_num = s\<rparr>, rec_data = b\<rparr>])
               (zip [0..<length pg] pg))"

definition live_records :: "RecordFileHandler \<Rightarrow> Record list" where
  "live_records h = concat (map (\<lambda>(p, pg). page_records p pg) (zip [0..<length (pages h)] (pages h)))"

section \<open>Index\<close>

text \<open>
  Modelled from the spec: \<open>BplusTreeIndex\<close> is not in the files at hand. An index
  holds \<open>(key, RID)\<close> entries, the key being the bytes of its column in the record.
  \<open>insert_entry\<close> adds an entry; \<open>delete_entry\<close> removes it and returns
  \<open>RECORD_INVALID_KEY\<close> when there is no such entry, the code that
  \<open>delete_entry_of_indexes\<close> tests for. The order of the entries in the tree is
  not modelled. \<open>index_fault\<close> stands for a failure of the next insertion: when it
  is not \<open>SUCCESS\<close> the insertion returns it and changes nothing.
\<close>

record Index =
  index_meta :: IndexMeta
  index_field_meta :: FieldMeta
  entries :: "(string \<times> RID) list"
  index_fault :: RC

definition index_key :: "Index \<Rightarrow> string \<Rightarrow> string" where
  "index_key idx bytes =
     take (field_len (index_field_meta idx)) (drop (field_offset (index_field_meta idx)) bytes)"

definition insert_entry :: "Index \<Rightarrow> string \<Rightarrow> RID \<Rightarrow> RC \<times> Index" where
  "insert_entry idx bytes r =
     (if index_fault idx \<noteq> SUCCESS then (index_fault idx, idx)
      else (SUCCESS, idx\<lparr>entries := (index_key idx bytes, r) # entries idx\<rparr>))"

definition delete_entry :: "Index \<Rightarrow> string \<Rightarrow> RID \<Rightarrow> RC \<times> Index" where
  "delete_entry idx bytes r =
     (if (index_key idx bytes, r) \<in> set (entries idx)
      then (SUCCESS, idx\<lparr>entries := remove1 (index_key idx bytes, r) (entries idx)\<rparr>)
      else (RECORD_INVALID_KEY, idx))"

section \<open>Transactions\<close>

text \<open>
  Modelled from the spec: \<open>Trx\<close> is not in the files at hand. A transaction has an
  id and an ordered log of operations. \<open>init_trx_info\<close> stamps the record header
  (the first system field) with the transaction id; \<open>insert_record\<close> appends an
  INSERT entry and \<open>update_record\<close> an UPDATE entry. \<open>trx_fault\<close> stands for a
  failure of the next logging call: when it is not \<open>SUCCESS\<close> the call returns it
  and changes nothing.
\<close>

datatype OperationType = INSERT | UPDATE | DELETE

record Operation =
  op_type :: OperationType
  op_rid :: RID

record Trx =
  trx_id :: nat
  operations :: "Operation list"
  trx_fault :: RC

definition init_trx_info :: "Trx \<Rightarrow> TableMeta \<Rightarrow> Record \<Rightarrow> Record" where
  "init_trx_info x m rec =
     (if sys_field_num m = 0 \<or> field_metas m = [] then rec
      else rec\<lparr>rec_data :=
             memcpy (rec_data rec) (field_offset (hd (field_metas m))) (int_bytes (int (trx_id x)))\<rparr>)"

definition trx_insert_record :: "Trx \<Rightarrow> Record \<Rightarrow> RC \<times> Trx" where
  "trx_insert_record x rec =
     (if trx_fault x \<noteq> SUCCESS then (trx_fault x, x)
      else (SUCCESS, x\<lparr>operations := operations x @ [\<lparr>op_type = INSERT, op_rid = rid rec\<rparr>]\<rparr>))"

definition trx_update_record :: "Trx \<Rightarrow> Record \<Rightarrow> string \<Rightarrow> RC \<times> Trx" where
  "trx_update_record x rec new_record_data =
     (if trx_fault x \<noteq> SUCCESS then (trx_fault x, x)
      else (SUCCESS, x\<lparr>operations := operations x @ [\<lparr>op_type = UPDATE, op_rid = rid rec\<rparr>]\<rparr>))"

section \<open>Table (storage/common/table.cpp)\<close>

record Table =
  table_meta :: TableMeta
  record_handler :: RecordFileHandler
  indexes :: "Index list"

subsection \<open>Legality of a value for a column\<close>

text \<open>
  \<open>is_legal\<close> tests the type tag of the value against the field, and then, in
  \<open>chars_legal\<close>, the length of a CHARS value against the length of the field.
\<close>

definition chars_legal :: "Value \<Rightarrow> FieldMeta \<Rightarrow> RC" where
  "chars_legal v field =
     (if type v = CHARS then
        (if strlen (data v) > field_len field then SCHEMA_FIELD_MISSING else SUCCESS)
      else SUCCESS)"

definition is_legal :: "Value \<Rightarrow> FieldMeta \<Rightarrow> RC" where
  "is_legal v field =
     (if type v = NULLS then
        (if \<not> field_nullable field then SCHEMA_FIELD_NAME_ILLEGAL else chars_legal v field)
      else if field_type field \<noteq> type v then SCHEMA_FIELD_TYPE_MISMATCH
      else chars_legal v field)"

subsection \<open>Building a record\<close>

text \<open>The first loop of \<open>make_record\<close>: the first illegal value decides the result.\<close>

fun check_values :: "TableMeta \<Rightarrow> nat \<Rightarrow> Value list \<Rightarrow> RC" where
  "check_values m i [] = SUCCESS"
| "check_values m i (v # vs) =
     (let rc = is_legal v (field_metas m ! (i + sys_field_num m))
      in if rc \<noteq> SUCCESS then rc else check_values m (Suc i) vs)"

text \<open>
  One round of the second loop: the payload of value \<open>i\<close> goes to the offset of its
  field, its NULL flag to byte \<open>null_field_index + i\<close>. A NULL value stores a
  placeholder that depends on the type of the field: the literal \<open>"NULL"\<close>, the
  \<open>int\<close> 19700101, the \<open>float\<close> 0 or the \<open>int\<close> 0.
\<close>

definition null_placeholder :: "junk \<Rightarrow> FieldMeta \<Rightarrow> string option" where
  "null_placeholder j field =
     (case field_type field of
        CHARS \<Rightarrow> Some (read_bytes j (strdup ''NULL'') (field_len field))
      | DATES \<Rightarrow> Some (read_bytes j (int_bytes 19700101) (field_len field))
      | FLOATS \<Rightarrow> Some (read_bytes j (int_bytes 0) (field_len field))
      | INTS \<Rightarrow> Some (read_bytes j (int_bytes 0) (field_len field))
      | _ \<Rightarrow> None)"

definition write_value :: "junk \<Rightarrow> TableMeta \<Rightarrow> nat \<Rightarrow> Value \<Rightarrow> string \<Rightarrow> string" where
  "write_value j m i v buf =
     (let field = field_metas m ! (i + sys_field_num m) in
      if is_null v then
        (let buf1 = (case null_placeholder j field of
                       None \<Rightarrow> buf
                     | Some bytes \<Rightarrow> memcpy buf (field_offset field) bytes)
         in memcpy buf1 (null_field_index m + i) [bool_byte True])
      else
        (let buf1 = memcpy buf (field_offset field) (read_bytes j (data v) (field_len field))
         in memcpy buf1 (null_field_index m + i) [bool_byte False]))"

fun write_values :: "junk \<Rightarrow> TableMeta \<Rightarrow> nat \<Rightarrow> Value list \<Rightarrow> string \<Rightarrow> string" where
  "write_values j m i [] buf = buf"
| "write_values j m i (v # vs) buf = write_values j m (Suc i) vs (write_value j m i v buf)"

text \<open>
  \<open>make_record(value_num, values, record_out)\<close>: \<open>values\<close> is the array and
  \<open>value_num\<close> its length. The result is the return code and the buffer left in
  \<open>record_out\<close> (empty when the call fails before allocating).
\<close>

definition make_record :: "junk \<Rightarrow> TableMeta \<Rightarrow> Value list \<Rightarrow> RC \<times> string" where
  "make_record j m values =
     (let value_num = length values in
      if value_num + sys_field_num m \<noteq> field_num m then (SCHEMA_FIELD_MISSING, [])
      else
        (let rc = check_values m 0 values in
         if rc \<noteq> SUCCESS then (rc, [])
         else (SUCCESS, write_values j m 0 values (new_char_array j (record_size m + value_num)))))"

subsection \<open>Index maintenance\<close>

fun insert_entry_of_indexes :: "Index list \<Rightarrow> string \<Rightarrow> RID \<Rightarrow> RC \<times> Index list" where
  "insert_entry_of_indexes [] bytes r = (SUCCESS, [])"
| "insert_entry_of_indexes (idx # rest) bytes r =
     (case insert_entry idx bytes r of
        (rc, idx') \<Rightarrow>
          if rc \<noteq> SUCCESS then (rc, idx' # rest)
          else (case insert_entry_of_indexes rest bytes r of
                  (rc', rest') \<Rightarrow> (rc', idx' # rest')))"

text \<open>
  \<open>delete_entry_of_indexes\<close>: the loop stops at the first failure, unless the
  failure is \<open>RECORD_INVALID_KEY\<close> and \<open>error_on_not_exists\<close> is set. The result
  code is the one of the last index visited (\<open>SUCCESS\<close> when there is no index);
  the first argument carries it through the loop.
\<close>

fun delete_entry_loop :: "RC \<Rightarrow> Index list \<Rightarrow> string \<Rightarrow> RID \<Rightarrow> bool \<Rightarrow> RC \<times> Index list" where
  "delete_entry_loop rc [] bytes r error_on_not_exists = (rc, [])"
| "delete_entry_loop rc (idx # rest) bytes r error_on_not_exists =
     (case delete_entry idx bytes r of
        (rc', idx') \<Rightarrow>
          if rc' \<noteq> SUCCESS \<and> (rc' \<noteq> RECORD_INVALID_KEY \<or> \<not> error_on_not_exists)
          then (rc', idx' # rest)
          else (case delete_entry_loop rc' rest bytes r error_on_not_exists of
                  (rc'', rest') \<Rightarrow> (rc'', idx' # rest')))"

definition delete_entry_of_indexes :: "Index list \<Rightarrow> string \<Rightarrow> RID \<Rightarrow> bool \<Rightarrow> RC \<times> Index list" where
  "delete_entry_of_indexes idxs bytes r error_on_not_exists =
     delete_entry_loop SUCCESS idxs bytes r error_on_not_exists"

subsection \<open>Inserting a record\<close>

text \<open>
  \<open>insert_record(trx, record)\<close>. \<open>trx\<close> may be a null pointer (\<open>None\<close>). The
  result is the return code, the transaction, the table and the record, whose
  \<open>rid\<close> the record handler fills in. \<open>LOG_PANIC\<close> and \<open>LOG_ERROR\<close> only write to
  the log: the result codes \<open>rc2\<close> of the compensating calls are dropped, as in
  the code.
\<close>

definition insert_record ::
  "junk \<Rightarrow> Trx option \<Rightarrow> Table \<Rightarrow> Record \<Rightarrow> RC \<times> Trx option \<times> Table \<times> Record" where
  "insert_record j trx t record =
     (let record1 = (case trx of None \<Rightarrow> record
                     | Some x \<Rightarrow> init_trx_info x (table_meta t) record) in
      case handler_insert_record j (record_handler t) (rec_data record1)
             (record_size (table_meta t) + field_num (table_meta t)) of
        (rc, h1, r) \<Rightarrow>
          if rc \<noteq> SUCCESS then (rc, trx, t, record1)
          else
            (let record2 = record1\<lparr>rid := r\<rparr>;
                 t1 = t\<lparr>record_handler := h1\<rparr>;
                 (rc_trx, trx1) =
                   (case trx of
                      None \<Rightarrow> (SUCCESS, None)
                    | Some x \<Rightarrow> (case trx_insert_record x record2 of
                                  (rc', x') \<Rightarrow> (rc', Some x')))
             in
             if rc_trx \<noteq> SUCCESS then
               (case handler_delete_record h1 (rid record2) of
                  (rc2, h2) \<Rightarrow> (rc_trx, trx1, t1\<lparr>record_handler := h2\<rparr>, record2))
             else
               (case insert_entry_of_indexes (indexes t1) (rec_data record2) (rid record2) of
                  (rc_idx, idxs1) \<Rightarrow>
                    if rc_idx \<noteq> SUCCESS then
                      (case delete_entry_of_indexes idxs1 (rec_data record2) (rid record2) True of
                         (rc2, idxs2) \<Rightarrow>
                           (case handler_delete_record h1 (rid record2) of
                              (rc2', h2) \<Rightarrow>
                                (rc_idx, trx1,
                                 t1\<lparr>record_handler := h2, indexes := idxs2\<rparr>, record2)))
                    else (rc_idx, trx1, t1\<lparr>indexes := idxs1\<rparr>, record2))))"

text \<open>
  \<open>insert_record(trx, value_num, values, ret_record)\<close>: the array \<open>values\<close> with
  its length. A null array or a length of zero is the empty list.
\<close>

definition insert_record_values ::
  "junk \<Rightarrow> Trx option \<Rightarrow> Table \<Rightarrow> Value list \<Rightarrow> RC \<times> Trx option \<times> Table" where
  "insert_record_values j trx t values =
     (if length values = 0 then (INVALID_ARGUMENT, trx, t)
      else
        (case make_record j (table_meta t) values of
           (rc, record_data) \<Rightarrow>
             if rc \<noteq> SUCCESS then (rc, trx, t)
             else
               (case insert_record j trx t
                       \<lparr>rid = \<lparr>page_num = 0, slot_num = 0\<rparr>, rec_data = record_data\<rparr> of
                  (rc', trx', t', record') \<Rightarrow> (rc', trx', t'))))"

subsection \<open>Updating one record\<close>

definition find_index :: "Table \<Rightarrow> string \<Rightarrow> nat option" where
  "find_index t name = find_pos (\<lambda>idx. index_name (index_meta idx) = name) (indexes t)"

text \<open>
  \<open>update_record(trx, record, attribute_name, value)\<close> is modelled in the order
  of its statements; three of its blocks are definitions of their own.

  \<^item> \<open>delete_old_entry\<close>: the entry of the record leaves the index found for the
    attribute, if there is one.
  \<^item> \<open>updated_data\<close>: the two \<open>memcpy\<close> calls, the payload at the offset of the
    field and the NULL flag at \<open>null_field_index + i - 1\<close> (in \<open>int\<close> arithmetic,
    \<open>i\<close> being the index of the field among all fields; a negative position lies
    before the buffer and is left out of the model).
  \<^item> \<open>insert_new_entry\<close>: the entry of the changed record enters the index; when
    that fails the record leaves all indexes and the heap.

  The block that would log the update in the transaction stands under
  \<open>if (false)\<close> in the code and under \<open>if False\<close> here. \<open>find_index\<close> is given the
  attribute name and compares it with the names of the indexes. The result is the
  return code, the transaction, the table and the record as the caller sees it
  afterwards.
\<close>

definition delete_old_entry :: "Table \<Rightarrow> nat option \<Rightarrow> Record \<Rightarrow> RC \<times> Table" where
  "delete_old_entry t index record =
     (case index of
        None \<Rightarrow> (SUCCESS, t)
      | Some p \<Rightarrow>
          (case delete_entry (indexes t ! p) (rec_data record) (rid record) of
             (rc, idx') \<Rightarrow> (rc, t\<lparr>indexes := (indexes t)[p := idx']\<rparr>)))"

definition updated_data :: "junk \<Rightarrow> TableMeta \<Rightarrow> nat \<Rightarrow> Value \<Rightarrow> string \<Rightarrow> string" where
  "updated_data j m i v bytes =
     (let field_meta = field_metas m ! i;
          data1 = memcpy bytes (field_offset field_meta)
                    (read_bytes j (data v) (field_len field_meta));
          pos = int (null_field_index m) + int i - 1
      in if pos < 0 then data1 else memcpy data1 (nat pos) [bool_byte (is_null v)])"

definition insert_new_entry :: "Table \<Rightarrow> nat option \<Rightarrow> Record \<Rightarrow> RC \<times> Table" where
  "insert_new_entry t index record =
     (case index of
        None \<Rightarrow> (SUCCESS, t)
      | Some p \<Rightarrow>
          (case insert_entry (indexes t ! p) (rec_data record) (rid record) of
             (rc, idx') \<Rightarrow>
               if rc \<noteq> SUCCESS then
                 (case delete_entry_of_indexes ((indexes t)[p := idx'])
                         (rec_data record) (rid record) True of
                    (rc2, idxs2) \<Rightarrow>
                      (case handler_delete_record (record_handler t) (rid record) of
                         (rc2', h2) \<Rightarrow> (rc, t\<lparr>record_handler := h2, indexes := idxs2\<rparr>)))
               else (rc, t\<lparr>indexes := (indexes t)[p := idx']\<rparr>)))"

definition update_record ::
  "junk \<Rightarrow> Trx option \<Rightarrow> Table \<Rightarrow> Record \<Rightarrow> string \<Rightarrow> Value
     \<Rightarrow> RC \<times> Trx option \<times> Table \<times> Record" where
  "update_record j trx t record attribute_name v =
     (let m = table_meta t;
          i = find_field_index_by_name m attribute_name in
      if i = - 1 then (SCHEMA_FIELD_NOT_EXIST, trx, t, record)
      else
        (let field_meta = field_metas m ! nat i;
             (rc_log, trx1) =
               (if False then
                  (case trx of
                     None \<Rightarrow> (SUCCESS, trx)
                   | Some x \<Rightarrow>
                       (case trx_update_record x record
                               (memcpy (rec_data record) (field_offset field_meta)
                                  (read_bytes j (data v) (field_len field_meta))) of
                          (rc', x') \<Rightarrow> (rc', Some x')))
                else (SUCCESS, trx))
         in
         if rc_log \<noteq> SUCCESS then (rc_log, trx1, t, record)
         else
           (let index = find_index t attribute_name in
            case delete_old_entry t index record of
              (rc_del, t1) \<Rightarrow>
                if rc_del \<noteq> SUCCESS then (rc_del, trx1, t1, record)
                else
                  (let rc_legal = is_legal v field_meta in
                   if rc_legal \<noteq> SUCCESS then (rc_legal, trx1, t1, record)
                   else
                     (let record1 = record\<lparr>rec_data := updated_data j m (nat i) v (rec_data record)\<rparr>
                      in
                      case handler_update_record (record_handler t1) record1 of
                        (rc_upd, h1) \<Rightarrow>
                          if rc_upd \<noteq> SUCCESS then (rc_upd, trx1, t1, record1)
                          else
                            (case insert_new_entry (t1\<lparr>record_handler := h1\<rparr>) index record1 of
                               (rc_ins, t2) \<Rightarrow> (rc_ins, trx1, t2, record1)))))))"

subsection \<open>Rolling back\<close>

text \<open>
  \<open>Table::rollback_insert\<close>: the entries of the record leave the indexes, then the
  record leaves the heap.
\<close>

definition rollback_insert :: "Table \<Rightarrow> RID \<Rightarrow> RC \<times> Table" where
  "rollback_insert t r =
     (case get_record (record_handler t) r of
        None \<Rightarrow> (RECORD_NOT_EXIST, t)
      | Some bytes \<Rightarrow>
          (case delete_entry_of_indexes (indexes t) bytes r False of
             (rc, idxs1) \<Rightarrow>
               if rc \<noteq> SUCCESS then (rc, t\<lparr>indexes := idxs1\<rparr>)
               else (case handler_delete_record (record_handler t) r of
                       (rc', h1) \<Rightarrow> (rc', t\<lparr>indexes := idxs1, record_handler := h1\<rparr>))))"

text \<open>
  Modelled from the spec: \<open>Trx::rollback\<close> is not in the files at hand. It walks
  the log from the last entry to the first and calls the matching \<open>rollback_*\<close>
  of the table, then discards the log. For an INSERT entry that is
  \<open>rollback_insert\<close> above. For a DELETE entry it is \<open>rollback_delete\<close>, which hands
  the record back to the transaction to clear its pending-delete mark; the header
  encoding is not in the files at hand and the model leaves the heap as it is
  there. For an UPDATE entry the table has no rollback function at all. The walk
  goes on after a failure and returns the last failure.
\<close>

fun rollback_ops :: "Operation list \<Rightarrow> Table \<Rightarrow> RC \<times> Table" where
  "rollback_ops [] t = (SUCCESS, t)"
| "rollback_ops (oper # ops) t =
     (case (case op_type oper of
              INSERT \<Rightarrow> rollback_insert t (op_rid oper)
            | DELETE \<Rightarrow> (SUCCESS, t)
            | UPDATE \<Rightarrow> (SUCCESS, t)) of
        (rc, t1) \<Rightarrow>
          (case rollback_ops ops t1 of
             (rc', t2) \<Rightarrow> (if rc' \<noteq> SUCCESS then rc' else rc, t2)))"

definition rollback :: "Trx \<Rightarrow> Table \<Rightarrow> RC \<times> Trx \<times> Table" where
  "rollback x t =
     (case rollback_ops (rev (operations x)) t of
        (rc, t1) \<Rightarrow> (rc, x\<lparr>operations := []\<rparr>, t1))"

section \<open>The layout of a record\<close>

text \<open>
  The layout the specification describes: the fields lie one after the other from
  offset 0, system fields first, and the null bitmap follows the last field.
  \<open>wf_meta\<close> collects what the code takes for granted about \<open>TableMeta\<close>: this
  layout, exactly one system field (\<open>update_record\<close> subtracts the constant 1 where
  \<open>make_record\<close> subtracts \<open>sys_field_num\<close>) of the four bytes that hold the
  transaction id, and a record size that reaches the null bitmap.
\<close>

fun offsets_from :: "nat \<Rightarrow> nat list \<Rightarrow> nat list" where
  "offsets_from off [] = []"
| "offsets_from off (l # ls) = off # offsets_from (off + l) ls"

definition wf_meta :: "TableMeta \<Rightarrow> bool" where
  "wf_meta m =
     (sys_field_num m = 1
      \<and> field_metas m \<noteq> []
      \<and> field_len (hd (field_metas m)) = 4
      \<and> map field_offset (field_metas m) = offsets_from 0 (map field_len (field_metas m))
      \<and> null_field_index m \<le> record_size m)"

text \<open>
  The payload bytes of field \<open>c\<close> in a record, and the NULL flag of field \<open>c\<close>
  (a user field, \<open>c \<ge> sys_field_num\<close>) where \<open>make_record\<close> puts it: user value
  \<open>k\<close> belongs to field \<open>k + sys_field_num\<close> and has its flag at
  \<open>null_field_index + k\<close>.
\<close>

definition column_payload :: "TableMeta \<Rightarrow> nat \<Rightarrow> string \<Rightarrow> string" where
  "column_payload m c bytes =
     take (field_len (field_metas m ! c)) (drop (field_offset (field_metas m ! c)) bytes)"

definition null_flag_pos :: "TableMeta \<Rightarrow> nat \<Rightarrow> nat" where
  "null_flag_pos m c = null_field_index m + (c - sys_field_num m)"

definition null_flag :: "TableMeta \<Rightarrow> nat \<Rightarrow> string \<Rightarrow> char option" where
  "null_flag m c bytes =
     (if null_flag_pos m c < length bytes then Some (bytes ! null_flag_pos m c) else None)"

section \<open>Invariants of the table\<close>

text \<open>
  Invariant 1 of the specification: every RID that appears in an index entry points
  to a live record of the heap.
\<close>

definition index_rids_live :: "Table \<Rightarrow> bool" where
  "index_rids_live t =
     list_all (\<lambda>idx. list_all (\<lambda>e. get_record (record_handler t) (snd e) \<noteq> None) (entries idx))
       (indexes t)"

text \<open>
  Invariant 4 of the specification: a column marked non-nullable never contains a
  NULL value on disk. \<open>row_ok\<close> says it of the bytes of one record: the NULL flag of
  every non-nullable user column is present and is 0. \<open>heap_ok\<close> says it of every
  occupied slot of every page.
\<close>

definition row_ok :: "TableMeta \<Rightarrow> string \<Rightarrow> bool" where
  "row_ok m bytes =
     list_all (\<lambda>c. field_nullable (field_metas m ! c) \<or> null_flag m c bytes = Some (CHR 0x00))
       [sys_field_num m ..< field_num m]"

definition slot_ok :: "TableMeta \<Rightarrow> string option \<Rightarrow> bool" where
  "slot_ok m slot = (case slot of None \<Rightarrow> True | Some bytes \<Rightarrow> row_ok m bytes)"

definition heap_ok :: "Table \<Rightarrow> bool" where
  "heap_ok t = list_all (list_all (slot_ok (table_meta t))) (pages (record_handler t))"

text \<open>
  The values the parser builds carry the NULL flag exactly when their type tag is
  \<open>NULLS\<close>: \<open>value_init_string\<close> sets both from its \<open>is_null\<close> argument, and the
  grammar calls \<open>value_init_integer\<close> and \<open>value_init_float\<close> with \<open>false\<close> only.
  \<open>is_legal\<close> reads the tag, \<open>make_record\<close> and \<open>update_record\<close> store the flag.
\<close>

definition value_ok :: "Value \<Rightarrow> bool" where
  "value_ok v = (is_null v = (type v = NULLS))"

text \<open>The codes that \<open>is_legal\<close> and \<open>make_record\<close> reject a row with.\<close>

definition schema_error :: "RC \<Rightarrow> bool" where
  "schema_error rc =
     (rc = SCHEMA_FIELD_MISSING \<or> rc = SCHEMA_FIELD_NAME_ILLEGAL \<or> rc = SCHEMA_FIELD_TYPE_MISMATCH)"

subsection \<open>Deleting a record outside a transaction\<close>

text \<open>
  \<open>delete_record(trx, record)\<close> with a null \<open>trx\<close>: the entries of the record leave
  the indexes and the record leaves the heap. (With a transaction the call goes to
  \<open>Trx::delete_record\<close>, which is not in the files at hand and only marks the
  record header.)
\<close>

definition delete_record :: "Table \<Rightarrow> Record \<Rightarrow> RC \<times> Table" where
  "delete_record t record =
     (case delete_entry_of_indexes (indexes t) (rec_data record) (rid record) False of
        (rc, idxs1) \<Rightarrow>
          if rc \<noteq> SUCCESS then (rc, t\<lparr>indexes := idxs1\<rparr>)
          else (case handler_delete_record (record_handler t) (rid record) of
                  (rc', h1) \<Rightarrow> (rc', t\<lparr>indexes := idxs1, record_handler := h1\<rparr>)))"

subsection \<open>Reachable states\<close>

text \<open>
  The states a table reaches from \<open>t0\<close> by the operations that create, change and
  remove records: inserting a row of parser-built values, updating a live record
  with a parser-built value, and deleting a live record; each with any outcome.
\<close>

inductive reachable :: "Table \<Rightarrow> Table \<Rightarrow> bool" for t0 :: Table where
  start: "reachable t0 t0"
| insert:
    "reachable t0 t \<Longrightarrow> list_all value_ok vs \<Longrightarrow>
     insert_record_values j trx t vs = (rc, trx', t') \<Longrightarrow> reachable t0 t'"
| update:
    "reachable t0 t \<Longrightarrow> value_ok v \<Longrightarrow>
     get_record (record_handler t) (rid record) = Some (rec_data record) \<Longrightarrow>
     update_record j trx t record attribute_name v = (rc, trx', t', record') \<Longrightarrow>
     reachable t0 t'"
| delete:
    "reachable t0 t \<Longrightarrow>
     get_record (record_handler t) (rid record) = Some (rec_data record) \<Longrightarrow>
     delete_record t record = (rc, t') \<Longrightarrow> reachable t0 t'"

section \<open>An example table\<close>

text \<open>
  The table of the end-to-end scenarios, \<open>CREATE TABLE t (a INT, b CHAR(4) NULLABLE)\<close>,
  with its one system field in front, and the rows \<open>(1, "foo")\<close> and \<open>(2, NULL)\<close>
  inserted outside any transaction. The record size is the sum of the field lengths
  plus one byte of null bitmap for each user field. The junk bytes are \<open>?\<close> for
  memory never written and \<open>!\<close> for memory past the end of a buffer.
\<close>

definition example_junk :: junk where
  "example_junk = \<lparr>uninit = (\<lambda>n. CHR ''?''), beyond = (\<lambda>n. CHR ''!'')\<rparr>"

definition example_meta :: TableMeta where
  "example_meta =
     \<lparr>table_name = ''t'',
      field_metas =
        [\<lparr>field_name = ''__trx'', field_type = INTS, field_offset = 0, field_len = 4,
          field_nullable = False\<rparr>,
         \<lparr>field_name = ''a'', field_type = INTS, field_offset = 4, field_len = 4,
          field_nullable = False\<rparr>,
         \<lparr>field_name = ''b'', field_type = CHARS, field_offset = 8, field_len = 4,
          field_nullable = True\<rparr>],
      sys_field_num = 1,
      index_metas = [],
      record_size = 14\<rparr>"

definition example_empty :: Table where
  "example_empty =
     \<lparr>table_meta = example_meta,
      record_handler = \<lparr>record_capacity = 4, pages = [], handler_fault = SUCCESS\<rparr>,
      indexes = []\<rparr>"

definition example_table :: Table where
  "example_table =
     (case insert_record_values example_junk None example_empty
             [value_init_integer 1 False, value_init_string ''foo'' False] of
        (rc1, trx1, t1) \<Rightarrow>
          (case insert_record_values example_junk None t1
                  [value_init_integer 2 False, value_init_string ''NULL'' True] of
             (rc2, trx2, t2) \<Rightarrow> t2))"

definition example_trx :: Trx where
  "example_trx = \<lparr>trx_id = 5, operations = [], trx_fault = SUCCESS\<rparr>"

text \<open>
  The same table with two indexes, \<open>ix\<close> on \<open>a\<close> and \<open>iy\<close> on \<open>b\<close>, both holding
  the entries of the two rows; the next insertion into \<open>iy\<close> is going to fail.
\<close>

definition example_indexed :: Table where
  "example_indexed =
     (let rows = live_records (record_handler example_table);
          fa = field_metas example_meta ! 1;
          fb = field_metas example_meta ! 2;
          ia = \<lparr>index_meta = \<lparr>index_name = ''ix'', index_field = ''a''\<rparr>,
                index_field_meta = fa, entries = [], index_fault = SUCCESS\<rparr>;
          ib = \<lparr>index_meta = \<lparr>index_name = ''iy'', index_field = ''b''\<rparr>,
                index_field_meta = fb, entries = [], index_fault = SUCCESS\<rparr>
      in example_table
           \<lparr>table_meta := example_meta
              \<lparr>index_metas := [\<lparr>index_name = ''ix'', index_field = ''a''\<rparr>,
                               \<lparr>index_name = ''iy'', index_field = ''b''\<rparr>]\<rparr>,
            indexes :=
              [ia\<lparr>entries := map (\<lambda>r. (index_key ia (rec_data r), rid r)) rows\<rparr>,
               ib\<lparr>entries := map (\<lambda>r. (index_key ib (rec_data r), rid r)) rows,
                  index_fault := IOERR\<rparr>]\<rparr>)"

definition example_record :: Record where
  "example_record =
     \<lparr>rid = \<lparr>page_num = 0, slot_num = 0\<rparr>,
      rec_data = snd (make_record example_junk example_meta
                        [value_init_integer 3 False, value_init_string ''baz'' False])\<rparr>"

text \<open>The value of a decimal digit; used to state what \<open>date2num\<close> computes.\<close>

definition dv :: "char \<Rightarrow> int" where
  "dv c = int (of_char c) - 48"

text \<open>The table of scenario 5, \<open>CREATE TABLE d (x DATE)\<close>, empty.\<close>

definition example_dates :: Table where
  "example_dates =
     \<lparr>table_meta =
        \<lparr>table_name = ''d'',
         field_metas =
           [\<lparr>field_name = ''__trx'', field_type = INTS, field_offset = 0, field_len = 4,
             field_nullable = False\<rparr>,
            \<lparr>field_name = ''x'', field_type = DATES, field_offset = 4, field_len = 4,
             field_nullable = False\<rparr>],
         sys_field_num = 1,
         index_metas = [],
         record_size = 9\<rparr>,
      record_handler = \<lparr>record_capacity = 4, pages = [], handler_fault = SUCCESS\<rparr>,
      indexes = []\<rparr>"

text \<open>The row \<open>(1, "foo")\<close> of the example table as a scan hands it to a callback.\<close>

definition example_row :: Record where
  "example_row = hd (live_records (record_handler example_table))"

section \<open>Comparison with NULL\<close>

text \<open>
  Claim C8. For every pair of tuple values, whatever their kinds (Int, Float or
  String), if either operand is NULL then \<open>compare\<close> returns \<open>-1\<close>: it never reports
  equality (0), also when both operands are NULL.
\<close>

theorem compare_null_never_equal:
  "tuple_is_null a \<or> tuple_is_null b \<Longrightarrow> compare a b = Some (- 1) \<and> compare a b \<noteq> Some 0"
  by (cases a) auto

theorem compare_null_never_equal_witness:
  "compare (IntValue 7 True) (IntValue 7 True) = Some (- 1)
   \<and> compare (FloatValue 2 False) (FloatValue 2 True) = Some (- 1)
   \<and> compare (StringValue ''foo'' True) (StringValue ''foo'' False) = Some (- 1)
   \<and> compare (IntValue 7 False) (IntValue 7 False) = Some 0"
  using compare_null_never_equal [of "IntValue 7 True" "IntValue 7 True"]
    compare_null_never_equal [of "FloatValue 2 False" "FloatValue 2 True"]
    compare_null_never_equal [of "StringValue ''foo'' True" "StringValue ''foo'' False"]
  by simp

section \<open>Date literals: auxiliary facts\<close>

lemma is_digit_dv: "is_digit c \<Longrightarrow> char_to_int c - 48 = int (of_char c) - 48 \<and> 0 \<le> int (of_char c) - 48 \<and> int (of_char c) - 48 \<le> 9 \<and> c \<noteq> CHR ''-''"
proof -
  assume d: "is_digit c"
  have e: "(of_char c :: int) = int (of_char c)" by (simp add: of_nat_of_char)
  from d have "48 \<le> int (of_char c) \<and> int (of_char c) \<le> 57"
    by (simp add: is_digit_def)
  moreover from d have "c \<noteq> CHR ''-''" by (auto simp: is_digit_def)
  ultimately show ?thesis by (simp add: char_to_int_def e)
qed

lemma match_day_shape:
  "match_day r \<Longrightarrow> (\<exists>g. r = [g] \<and> is_digit g) \<or> (\<exists>g h. r = [g, h] \<and> is_digit g \<and> is_digit h)"
  by (auto simp: match_day_def split: list.splits)

lemma match_month_day_shape:
  "match_month_day r \<Longrightarrow>
     (\<exists>e r2. r = e # CHR ''-'' # r2 \<and> is_digit e \<and> match_day r2)
   \<or> (\<exists>e f r2. r = e # f # CHR ''-'' # r2 \<and> is_digit e \<and> is_digit f \<and> match_day r2)"
  by (auto simp: match_month_day_def split: list.splits if_splits)

lemma smod_nonneg: "0 \<le> a \<Longrightarrow> 0 < b \<Longrightarrow> (a::int) smod b = a mod b"
  by (simp add: signed_modulo_int_def signed_divide_int_def sgn_if)
     
lemma sdiv_nonneg: "0 \<le> a \<Longrightarrow> 0 < b \<Longrightarrow> (a::int) sdiv b = a div b"
  by (simp add: signed_divide_int_def sgn_if)


lemma shape_cases:
  assumes "check_date_format s"
  obtains a b c d e g where "s = [a,b,c,d,CHR ''-'',e,CHR ''-'',g]" "is_digit a" "is_digit b" "is_digit c" "is_digit d" "is_digit e" "is_digit g"
  | a b c d e g h where "s = [a,b,c,d,CHR ''-'',e,CHR ''-'',g,h]" "is_digit a" "is_digit b" "is_digit c" "is_digit d" "is_digit e" "is_digit g" "is_digit h"
  | a b c d e f g where "s = [a,b,c,d,CHR ''-'',e,f,CHR ''-'',g]" "is_digit a" "is_digit b" "is_digit c" "is_digit d" "is_digit e" "is_digit f" "is_digit g"
  | a b c d e f g h where "s = [a,b,c,d,CHR ''-'',e,f,CHR ''-'',g,h]" "is_digit a" "is_digit b" "is_digit c" "is_digit d" "is_digit e" "is_digit f" "is_digit g" "is_digit h"
proof -
  from assms obtain a b c d r where s: "s = a # b # c # d # CHR ''-'' # r"
    and dg: "is_digit a" "is_digit b" "is_digit c" "is_digit d" and mm: "match_month_day r"
    by (auto simp: check_date_format_def split: list.splits)
  from match_month_day_shape [OF mm] show thesis
  proof (elim disjE exE conjE)
    fix e r2 assume r: "r = e # CHR ''-'' # r2" and e: "is_digit e" and md: "match_day r2"
    from match_day_shape [OF md] show thesis
      using that(1,2) s dg r e by (elim disjE exE conjE) auto
  next
    fix e f r2 assume r: "r = e # f # CHR ''-'' # r2" and e: "is_digit e" "is_digit f" and md: "match_day r2"
    from match_day_shape [OF md] show thesis
      using that(3,4) s dg r e by (elim disjE exE conjE) auto
  qed
qed




lemma dv_digit: "is_digit c \<Longrightarrow> char_to_int c - 48 = dv c \<and> 0 \<le> dv c \<and> dv c \<le> 9 \<and> c \<noteq> CHR ''-''"
  using is_digit_dv [of c] by (simp add: dv_def)

lemma date2num_8:
  assumes "is_digit a" "is_digit b" "is_digit c" "is_digit d" "is_digit e" "is_digit g"
  shows "date2num [a,b,c,d,CHR ''-'',e,CHR ''-'',g]
     = (1000 * dv a + 100 * dv b + 10 * dv c + dv d) * 10000 + dv e * 100 + dv g"
  using assms [THEN dv_digit] by (simp add: date2num_def eval_nat_numeral)

lemma date2num_9a:
  assumes "is_digit a" "is_digit b" "is_digit c" "is_digit d" "is_digit e" "is_digit g" "is_digit h"
  shows "date2num [a,b,c,d,CHR ''-'',e,CHR ''-'',g,h]
     = (1000 * dv a + 100 * dv b + 10 * dv c + dv d) * 10000 + dv e * 100 + (10 * dv g + dv h)"
  using assms [THEN dv_digit] by (simp add: date2num_def eval_nat_numeral)

lemma date2num_9b:
  assumes "is_digit a" "is_digit b" "is_digit c" "is_digit d" "is_digit e" "is_digit f" "is_digit g"
  shows "date2num [a,b,c,d,CHR ''-'',e,f,CHR ''-'',g]
     = (1000 * dv a + 100 * dv b + 10 * dv c + dv d) * 10000 + (10 * dv e + dv f) * 100 + dv g"
  using assms [THEN dv_digit] by (simp add: date2num_def eval_nat_numeral)

lemma date2num_10:
  assumes "is_digit a" "is_digit b" "is_digit c" "is_digit d" "is_digit e" "is_digit f" "is_digit g" "is_digit h"
  shows "date2num [a,b,c,d,CHR ''-'',e,f,CHR ''-'',g,h]
     = (1000 * dv a + 100 * dv b + 10 * dv c + dv d) * 10000 + (10 * dv e + dv f) * 100 + (10 * dv g + dv h)"
  using assms [THEN dv_digit] by (simp add: date2num_def eval_nat_numeral)

lemma date_fields_8:
  assumes "is_digit a" "is_digit b" "is_digit c" "is_digit d" "is_digit e" "is_digit g"
  shows "date_fields [a,b,c,d,CHR ''-'',e,CHR ''-'',g]
     = (1000 * dv a + 100 * dv b + 10 * dv c + dv d, dv e, dv g)"
  using assms [THEN dv_digit] by (simp add: date_fields_def decimal_def dv_def)

lemma date_fields_9a:
  assumes "is_digit a" "is_digit b" "is_digit c" "is_digit d" "is_digit e" "is_digit g" "is_digit h"
  shows "date_fields [a,b,c,d,CHR ''-'',e,CHR ''-'',g,h]
     = (1000 * dv a + 100 * dv b + 10 * dv c + dv d, dv e, 10 * dv g + dv h)"
  using assms [THEN dv_digit] by (simp add: date_fields_def decimal_def dv_def)

lemma date_fields_9b:
  assumes "is_digit a" "is_digit b" "is_digit c" "is_digit d" "is_digit e" "is_digit f" "is_digit g"
  shows "date_fields [a,b,c,d,CHR ''-'',e,f,CHR ''-'',g]
     = (1000 * dv a + 100 * dv b + 10 * dv c + dv d, 10 * dv e + dv f, dv g)"
  using assms [THEN dv_digit] by (simp add: date_fields_def decimal_def dv_def)

lemma date_fields_10:
  assumes "is_digit a" "is_digit b" "is_digit c" "is_digit d" "is_digit e" "is_digit f" "is_digit g" "is_digit h"
  shows "date_fields [a,b,c,d,CHR ''-'',e,f,CHR ''-'',g,h]
     = (1000 * dv a + 100 * dv b + 10 * dv c + dv d, 10 * dv e + dv f, 10 * dv g + dv h)"
  using assms [THEN dv_digit] by (simp add: date_fields_def decimal_def dv_def)


lemma leap_in_range: "1970 \<le> Y \<Longrightarrow> Y \<le> 2038 \<Longrightarrow> leap_year Y = (Y mod 4 = 0)"
  unfolding leap_year_def by presburger

lemma check_core:
  assumes num: "date2num s = Y * 10000 + M * 100 + D"
    and fields: "date_fields s = (Y, M, D)"
    and b: "0 \<le> Y" "0 \<le> M" "M \<le> 99" "0 \<le> D" "D \<le> 99"
  shows "(snd (check_date_data_convert s 1) \<noteq> 0) = denotes_valid_date s"
proof -
  let ?n = "Y * 10000 + M * 100 + D"
  have n0: "0 \<le> ?n" using b by simp
  have r: "0 \<le> M * 100 + D" "M * 100 + D < 10000" using b by auto
  have d1: "?n mod 100 = D"
  proof -
    have "?n = D + (Y * 100 + M) * 100" by simp
    then have "?n mod 100 = D mod 100" by (simp only: mod_mult_self1)
    then show ?thesis using b by simp
  qed
  have m2: "?n mod 10000 = M * 100 + D"
  proof -
    have "?n = (M * 100 + D) + Y * 10000" by simp
    then have "?n mod 10000 = (M * 100 + D) mod 10000" by (simp only: mod_mult_self1)
    then show ?thesis using r by simp
  qed
  have m1: "?n mod 10000 div 100 = M"
  proof -
    have "(M * 100 + D) div 100 = (D + M * 100) div 100" by (simp add: add.commute)
    also have "\<dots> = M + D div 100" by simp
    finally show ?thesis using b m2 by simp
  qed
  have m0: "0 \<le> ?n mod 10000" by simp
  have y1: "?n div 10000 = Y"
  proof -
    have "?n = (M * 100 + D) + Y * 10000" by simp
    then have "?n div 10000 = Y + (M * 100 + D) div 10000" by simp
    then show ?thesis using r by simp
  qed
  have days: "?n smod 100 = D"
    using n0 d1 by (simp only: smod_nonneg)
  have mons: "(?n smod 10000) sdiv 100 = M"
    using n0 m0 m1 by (simp only: smod_nonneg sdiv_nonneg)
  have years: "?n sdiv 10000 = Y"
    using n0 y1 by (simp only: sdiv_nonneg)
  have y4: "Y smod 4 = Y mod 4" using b by (simp add: smod_nonneg)
  have unf: "snd (check_date_data_convert s 1) =
      (let t1 = (if ?n < 19700101 \<or> ?n > 20380131 then 0 else 1);
           t2 = (if D > 31 \<or> D < 1 then 0 else t1);
           t3 = (if M > 12 \<or> M < 1 then 0 else t2);
           t4 = (if M = 2 then
                  (if Y mod 4 = 0 then (if D > 29 then 0 else t3)
                   else (if D > 28 then 0 else t3))
                else t3)
       in (if M = 4 \<or> M = 6 \<or> M = 9 \<or> M = 11 then
                  (if D > 30 then 0 else t4)
                else (if D > 31 then 0 else t4)))"
    unfolding check_date_data_convert_def Let_def num days mons years y4 snd_conv ..
  have spec: "denotes_valid_date s =
        (19700101 \<le> ?n \<and> ?n \<le> 20380131
        \<and> 1 \<le> M \<and> M \<le> 12 \<and> 1 \<le> D \<and> D \<le> days_in_month Y M)"
    by (simp add: denotes_valid_date_def fields)
  show ?thesis
  proof (cases "19700101 \<le> ?n \<and> ?n \<le> 20380131")
    case False
    then have "\<not> denotes_valid_date s" unfolding spec by blast
    moreover from False have t0: "(if ?n < 19700101 \<or> ?n > 20380131 then 0 else 1) = (0::int)"
      by auto
    have "snd (check_date_data_convert s 1) = 0"
      unfolding unf Let_def t0 by simp
    ultimately show ?thesis by simp
  next
    case True
    with b have yr: "1970 \<le> Y" "Y \<le> 2038" by auto
    from True have t1: "(if ?n < 19700101 \<or> ?n > 20380131 then 0 else 1) = (1::int)"
      by auto
    consider (feb) "M = 2" | (short) "M = 4 \<or> M = 6 \<or> M = 9 \<or> M = 11"
      | (long) "M \<noteq> 2" "\<not> (M = 4 \<or> M = 6 \<or> M = 9 \<or> M = 11)" by blast
    then show ?thesis
    proof cases
      case feb
      show ?thesis unfolding unf spec Let_def t1 using True
        by (simp add: feb days_in_month_def leap_in_range [OF yr])
    next
      case short
      then have dm: "days_in_month Y M = 30" "M \<noteq> 2" "1 \<le> M" "M \<le> 12"
        by (auto simp: days_in_month_def)
      show ?thesis unfolding unf spec Let_def t1 using True short dm
        by simp
    next
      case long
      then have dm: "days_in_month Y M = 31"
        by (auto simp: days_in_month_def)
      show ?thesis unfolding unf spec Let_def t1 using True long dm
        by auto
    qed
  qed
qed


lemma dv_bounds4:
  assumes "is_digit a" "is_digit b" "is_digit c" "is_digit d"
  shows "0 \<le> 1000 * dv a + 100 * dv b + 10 * dv c + dv d"
  using assms [THEN dv_digit] by simp

lemma dv_bounds2:
  assumes "is_digit a" "is_digit b"
  shows "0 \<le> 10 * dv a + dv b \<and> 10 * dv a + dv b \<le> 99"
  using assms [THEN dv_digit] by simp

lemma dv_bounds1:
  assumes "is_digit a"
  shows "0 \<le> dv a \<and> dv a \<le> 99"
  using assms [THEN dv_digit] by simp

lemma date_check_iff:
  assumes "check_date_format s"
  shows "(snd (check_date_data_convert s 1) \<noteq> 0) = denotes_valid_date s"
  using assms
proof (cases rule: shape_cases)
  case (1 a b c d e g)
  show ?thesis
    using check_core [OF date2num_8 date_fields_8, of a b c d e g]
      dv_bounds4 [of a b c d] dv_bounds1 [of e] dv_bounds1 [of g] 1 by blast
next
  case (2 a b c d e g h)
  show ?thesis
    using check_core [OF date2num_9a date_fields_9a, of a b c d e g h]
      dv_bounds4 [of a b c d] dv_bounds1 [of e] dv_bounds2 [of g h] 2 by blast
next
  case (3 a b c d e f g)
  show ?thesis
    using check_core [OF date2num_9b date_fields_9b, of a b c d e f g]
      dv_bounds4 [of a b c d] dv_bounds2 [of e f] dv_bounds1 [of g] 3 by blast
next
  case (4 a b c d e f g h)
  show ?thesis
    using check_core [OF date2num_10 date_fields_10, of a b c d e f g h]
      dv_bounds4 [of a b c d] dv_bounds2 [of e f] dv_bounds2 [of g h] 4 by blast
qed

section \<open>Buffers, the record manager and the indexes: auxiliary facts\<close>

lemma length_read_bytes [simp]: "length (read_bytes j src n) = n"
  by (simp add: read_bytes_def)

lemma length_memcpy [simp]: "length (memcpy dst off bytes) = length dst"
  by (simp add: memcpy_def)

lemma nth_memcpy:
  "i < length dst \<Longrightarrow>
   memcpy dst off bytes ! i =
     (if off \<le> i \<and> i < off + length bytes then bytes ! (i - off) else dst ! i)"
  by (auto simp: memcpy_def nth_append)

lemma find_pos_Some: "find_pos P xs = Some i \<Longrightarrow> i < length xs \<and> P (xs ! i)"
  by (induction xs arbitrary: i) (auto split: if_splits)

lemma find_pos_None: "find_pos P xs = None \<Longrightarrow> \<forall>x\<in>set xs. \<not> P x"
  by (induction xs) (auto split: if_splits)

lemma find_free_slot_Some:
  "find_free_slot p pgs = Some r \<Longrightarrow>
     p \<le> page_num r \<and> page_num r - p < length pgs
     \<and> slot_num r < length (pgs ! (page_num r - p))
     \<and> pgs ! (page_num r - p) ! slot_num r = None"
proof (induction pgs arbitrary: p)
  case Nil
  then show ?case by simp
next
  case (Cons pg pgs)
  show ?case
  proof (cases "find_pos (\<lambda>s. s = None) pg")
    case None
    with Cons.prems have "find_free_slot (Suc p) pgs = Some r" by simp
    from Cons.IH [OF this] have ih: "Suc p \<le> page_num r" "page_num r - Suc p < length pgs"
      "slot_num r < length (pgs ! (page_num r - Suc p))"
      "pgs ! (page_num r - Suc p) ! slot_num r = None" by auto
    from ih(1) have e: "page_num r - p = Suc (page_num r - Suc p)" by simp
    show ?thesis using ih by (simp add: e)
  next
    case (Some s)
    with Cons.prems have "r = \<lparr>page_num = p, slot_num = s\<rparr>" by simp
    with find_pos_Some [OF Some] show ?thesis by simp
  qed
qed

lemma get_record_set_slot:
  "get_record (set_slot h r v) r' =
     (if page_num r' = page_num r \<and> slot_num r' = slot_num r
         \<and> page_num r < length (pages h) \<and> slot_num r < length (pages h ! page_num r)
      then v else get_record h r')"
proof (cases "page_num r' = page_num r")
  case True
  then show ?thesis
    by (cases "page_num r < length (pages h)")
       (auto simp: get_record_def set_slot_def nth_list_update)
next
  case False
  then show ?thesis
    by (auto simp: get_record_def set_slot_def nth_list_update)
qed

lemma length_write_value [simp]: "length (write_value j m i v buf) = length buf"
  by (simp add: write_value_def Let_def split: option.splits)

lemma length_write_values [simp]: "length (write_values j m i vs buf) = length buf"
  by (induction vs arbitrary: i buf) simp_all

lemma make_record_length:
  "make_record j m values = (SUCCESS, buf) \<Longrightarrow>
     length buf = record_size m + length values
     \<and> length values + sys_field_num m = field_num m"
  by (auto simp: make_record_def Let_def new_char_array_def split: if_splits)


lemma set_slot_undo:
  assumes "page_num r < length (pages h)" "slot_num r < length (pages h ! page_num r)"
    "pages h ! page_num r ! slot_num r = None"
  shows "set_slot (set_slot h r v) r None = h"
proof -
  have "(pages h ! page_num r)[slot_num r := None] = pages h ! page_num r"
    using assms by (metis list_update_id)
  then show ?thesis using assms by (simp add: set_slot_def)
qed

lemma handler_insert_fail:
  "handler_insert_record j h bytes sz = (rc, h1, r) \<Longrightarrow> rc \<noteq> SUCCESS \<Longrightarrow> h1 = h"
  by (auto simp: handler_insert_record_def split: if_splits option.splits)

lemma handler_insert_fresh:
  "handler_insert_record j h bytes sz = (SUCCESS, h1, r) \<Longrightarrow> get_record h r = None"
  by (auto simp: handler_insert_record_def get_record_def
           split: if_splits option.splits dest!: find_free_slot_Some)

lemma handler_insert_stored:
  assumes "handler_insert_record j h bytes sz = (SUCCESS, h1, r)"
  shows "get_record h1 r = Some (read_bytes j bytes sz)"
proof (cases "find_free_slot 0 (pages h)")
  case (Some r0)
  with assms have h1: "h1 = set_slot h r (Some (read_bytes j bytes sz))" and "r0 = r"
    by (auto simp: handler_insert_record_def split: if_splits)
  with find_free_slot_Some [OF Some] show ?thesis
    by (simp add: get_record_set_slot)
next
  case None
  with assms show ?thesis
    by (auto simp: handler_insert_record_def get_record_def split: if_splits)
qed

lemma handler_insert_others:
  assumes "handler_insert_record j h bytes sz = (SUCCESS, h1, r)"
    and "page_num r' \<noteq> page_num r \<or> slot_num r' \<noteq> slot_num r"
  shows "get_record h1 r' = get_record h r'"
proof (cases "find_free_slot 0 (pages h)")
  case (Some r0)
  with assms show ?thesis
    by (auto simp: handler_insert_record_def get_record_set_slot split: if_splits)
next
  case None
  with assms have h1: "h1 = h\<lparr>pages := pages h @
        [Some (read_bytes j bytes sz) # replicate (record_capacity h - 1) None]\<rparr>"
    and r: "r = \<lparr>page_num = length (pages h), slot_num = 0\<rparr>"
    by (auto simp: handler_insert_record_def split: if_splits)
  show ?thesis
  proof (cases "page_num r' < length (pages h)")
    case True
    then show ?thesis by (simp add: h1 get_record_def nth_append)
  next
    case False
    then show ?thesis using assms(2) r
      by (cases "slot_num r'") (auto simp: h1 get_record_def nth_append)
  qed
qed

lemma page_records_replicate_None [simp]: "page_records p (replicate n None) = []"
  by (induction n) (auto simp: page_records_def zip_replicate2 simp del: replicate.simps)

lemma insert_then_delete:
  assumes "handler_insert_record j h bytes sz = (SUCCESS, h1, r)"
    and "handler_delete_record h1 r = (rc2, h2)"
  shows "live_records h2 = live_records h \<and> (\<forall>r'. get_record h2 r' = get_record h r')"
proof (cases "find_free_slot 0 (pages h)")
  case (Some r0)
  with assms(1) have h1: "h1 = set_slot h r (Some (read_bytes j bytes sz))" and "r0 = r"
    by (auto simp: handler_insert_record_def split: if_splits)
  with find_free_slot_Some [OF Some] have fr: "page_num r < length (pages h)"
    "slot_num r < length (pages h ! page_num r)" "pages h ! page_num r ! slot_num r = None"
    by auto
  from assms(2) handler_insert_stored [OF assms(1)] have "h2 = set_slot h1 r None"
    by (simp add: handler_delete_record_def)
  then have "h2 = h" using set_slot_undo [OF fr] h1 by simp
  then show ?thesis by simp
next
  case None
  with assms(1) have h1: "h1 = h\<lparr>pages := pages h @
        [Some (read_bytes j bytes sz) # replicate (record_capacity h - 1) None]\<rparr>"
    and r: "r = \<lparr>page_num = length (pages h), slot_num = 0\<rparr>"
    and cap: "record_capacity h \<noteq> 0"
    by (auto simp: handler_insert_record_def split: if_splits)
  from assms(2) handler_insert_stored [OF assms(1)] have "h2 = set_slot h1 r None"
    by (simp add: handler_delete_record_def)
  then have h2: "h2 = h\<lparr>pages := pages h @ [replicate (record_capacity h) None]\<rparr>"
    using cap by (cases "record_capacity h") (simp_all add: h1 r set_slot_def)
  have a: "live_records h2 = live_records h"
    by (simp add: h2 live_records_def)
  have b: "get_record h2 r' = get_record h r'" for r'
    by (auto simp: h2 get_record_def nth_append)
  from a b show ?thesis by simp
qed


lemma delete_untouched:
  "\<forall>idx\<in>set idxs. \<forall>k. (k, r) \<notin> set (entries idx) \<Longrightarrow>
     snd (delete_entry_loop rc0 idxs bytes r True) = idxs"
  by (induction idxs arbitrary: rc0) (auto simp: delete_entry_def split_beta)

lemma insert_then_delete_entries:
  "\<forall>idx\<in>set idxs. \<forall>k. (k, r) \<notin> set (entries idx) \<Longrightarrow>
   insert_entry_of_indexes idxs bytes r = (rc, idxs1) \<Longrightarrow>
     snd (delete_entry_loop rc0 idxs1 bytes r True) = idxs"
proof (induction idxs arbitrary: rc rc0 idxs1)
  case Nil
  then show ?case by simp
next
  case (Cons idx rest)
  show ?case
  proof (cases "index_fault idx = SUCCESS")
    case False
    with Cons.prems(2) have "idxs1 = idx # rest" by (simp add: insert_entry_def)
    with delete_untouched [OF Cons.prems(1)] show ?thesis by simp
  next
    case True
    obtain rc' rest' where r: "insert_entry_of_indexes rest bytes r = (rc', rest')"
      by (cases "insert_entry_of_indexes rest bytes r")
    let ?idx' = "idx\<lparr>entries := (index_key idx bytes, r) # entries idx\<rparr>"
    from True r Cons.prems(2) have i1: "idxs1 = ?idx' # rest'"
      by (simp add: insert_entry_def)
    have d: "delete_entry ?idx' bytes r = (SUCCESS, idx)"
      by (simp add: delete_entry_def index_key_def)
    from Cons.prems(1) have "\<forall>idx\<in>set rest. \<forall>k. (k, r) \<notin> set (entries idx)" by simp
    from Cons.IH [OF this r] have "snd (delete_entry_loop SUCCESS rest' bytes r True) = rest" .
    then show ?thesis by (simp add: i1 d split_beta)
  qed
qed

lemma live_no_entry:
  assumes "index_rids_live t" "get_record (record_handler t) r = None"
  shows "\<forall>idx\<in>set (indexes t). \<forall>k. (k, r) \<notin> set (entries idx)"
  using assms by (fastforce simp: index_rids_live_def list_all_iff)

lemma check_values_first_illegal:
  "i < length vs \<Longrightarrow>
   \<forall>k<i. is_legal (vs ! k) (field_metas m ! (s + k + sys_field_num m)) = SUCCESS \<Longrightarrow>
   is_legal (vs ! i) (field_metas m ! (s + i + sys_field_num m)) = rc \<Longrightarrow> rc \<noteq> SUCCESS \<Longrightarrow>
   check_values m s vs = rc"
proof (induction vs arbitrary: s i)
  case Nil
  then show ?case by simp
next
  case (Cons v vs)
  show ?case
  proof (cases i)
    case 0
    with Cons.prems show ?thesis by (simp add: Let_def)
  next
    case (Suc i')
    from Cons.prems(2) Suc have hd: "is_legal v (field_metas m ! (s + sys_field_num m)) = SUCCESS"
      by fastforce
    have "\<forall>k<i'. is_legal (vs ! k) (field_metas m ! (Suc s + k + sys_field_num m)) = SUCCESS"
    proof (intro allI impI)
      fix k assume "k < i'"
      then have "Suc k < i" using Suc by simp
      from Cons.prems(2) [rule_format, OF this] show "is_legal (vs ! k) (field_metas m ! (Suc s + k + sys_field_num m)) = SUCCESS"
        by simp
    qed
    moreover have "i' < length vs" using Cons.prems(1) Suc by simp
    moreover have "is_legal (vs ! i') (field_metas m ! (Suc s + i' + sys_field_num m)) = rc"
      using Cons.prems(3) Suc by simp
    ultimately have "check_values m (Suc s) vs = rc" using Cons.IH Cons.prems(4) by blast
    with hd show ?thesis by (simp add: Let_def)
  qed
qed

lemma check_values_SUCCESS:
  "check_values m s vs = SUCCESS \<Longrightarrow> i < length vs \<Longrightarrow>
     is_legal (vs ! i) (field_metas m ! (s + i + sys_field_num m)) = SUCCESS"
proof (induction vs arbitrary: s i)
  case Nil
  then show ?case by simp
next
  case (Cons v vs)
  from Cons.prems(1) have hd: "is_legal v (field_metas m ! (s + sys_field_num m)) = SUCCESS"
    and tl: "check_values m (Suc s) vs = SUCCESS"
    by (auto simp: Let_def split: if_splits)
  show ?case
  proof (cases i)
    case 0
    with hd show ?thesis by simp
  next
    case (Suc i')
    with Cons.prems(2) have "i' < length vs" by simp
    from Cons.IH [OF tl this] show ?thesis using Suc by simp
  qed
qed

lemma insert_record_values_illegal:
  assumes "i < length values"
    and "is_legal (values ! i)
           (field_metas (table_meta t) ! (i + sys_field_num (table_meta t))) \<noteq> SUCCESS"
  shows "fst (insert_record_values j trx t values) \<noteq> SUCCESS
     \<and> snd (insert_record_values j trx t values) = (trx, t)"
proof -
  have "check_values (table_meta t) 0 values \<noteq> SUCCESS"
    using check_values_SUCCESS [of "table_meta t" 0 "values" i] assms by auto
  then have "fst (make_record j (table_meta t) values) \<noteq> SUCCESS"
    by (simp add: make_record_def Let_def)
  then show ?thesis
    by (auto simp: insert_record_values_def split: prod.splits)
qed

section \<open>Updating a record: auxiliary facts\<close>

lemma find_field_index_by_name_cases:
  "find_field_index_by_name m name = - 1
   \<or> (\<exists>i. find_field_index_by_name m name = int i \<and> i < field_num m
          \<and> field_name (field_metas m ! i) = name)"
  by (auto simp: find_field_index_by_name_def field_num_def split: option.splits
           dest: find_pos_Some)

lemma handler_update_record_SUCCESS:
  "handler_update_record h rec = (SUCCESS, h1) \<Longrightarrow>
     get_record h (rid rec) \<noteq> None \<and> h1 = set_slot h (rid rec) (Some (rec_data rec))"
  by (auto simp: handler_update_record_def split: option.splits)

lemma delete_old_entry_frame:
  "delete_old_entry t index record = (rc, t1) \<Longrightarrow>
     table_meta t1 = table_meta t \<and> record_handler t1 = record_handler t"
  by (auto simp: delete_old_entry_def split: option.splits prod.splits)

lemma insert_new_entry_SUCCESS:
  "insert_new_entry t index record = (SUCCESS, t2) \<Longrightarrow>
     table_meta t2 = table_meta t \<and> record_handler t2 = record_handler t"
  by (auto simp: insert_new_entry_def split: option.splits prod.splits if_splits)

lemma update_record_success:
  assumes "update_record j trx t record attribute_name v = (SUCCESS, trx', t', record')"
  shows "\<exists>i. find_field_index_by_name (table_meta t) attribute_name = int i
           \<and> i < field_num (table_meta t)
           \<and> is_legal v (field_metas (table_meta t) ! i) = SUCCESS
           \<and> record' = record\<lparr>rec_data := updated_data j (table_meta t) i v (rec_data record)\<rparr>
           \<and> get_record (record_handler t) (rid record) \<noteq> None
           \<and> record_handler t' = set_slot (record_handler t) (rid record)
                 (Some (updated_data j (table_meta t) i v (rec_data record)))
           \<and> table_meta t' = table_meta t \<and> trx' = trx"
proof -
  let ?m = "table_meta t"
  from find_field_index_by_name_cases [of ?m attribute_name] assms
  obtain i where i: "find_field_index_by_name ?m attribute_name = int i" "i < field_num ?m"
    by (auto simp: update_record_def Let_def)
  let ?f = "field_metas ?m ! i"
  let ?r1 = "record\<lparr>rec_data := updated_data j ?m i v (rec_data record)\<rparr>"
  obtain rc_del t1 where del: "delete_old_entry t (find_index t attribute_name) record = (rc_del, t1)"
    by (cases "delete_old_entry t (find_index t attribute_name) record")
  note t1 = delete_old_entry_frame [OF del]
  obtain rc_upd h1 where upd: "handler_update_record (record_handler t) ?r1 = (rc_upd, h1)"
    by (cases "handler_update_record (record_handler t) ?r1")
  obtain rc_ins t2 where ins: "insert_new_entry (t1\<lparr>record_handler := h1\<rparr>) (find_index t attribute_name) ?r1 = (rc_ins, t2)"
    by (cases "insert_new_entry (t1\<lparr>record_handler := h1\<rparr>) (find_index t attribute_name) ?r1")
  have neg: "int i \<noteq> - 1" by simp
  from assms have ok: "rc_del = SUCCESS \<and> is_legal v ?f = SUCCESS \<and> rc_upd = SUCCESS
      \<and> rc_ins = SUCCESS \<and> trx' = trx \<and> t' = t2 \<and> record' = ?r1"
    unfolding update_record_def Let_def i
    by (simp add: del t1 upd ins neg split: if_splits)
  with ins have t2: "table_meta t2 = ?m" "record_handler t2 = h1"
    using insert_new_entry_SUCCESS [of "t1\<lparr>record_handler := h1\<rparr>" _ ?r1 t2] t1 by auto
  from handler_update_record_SUCCESS [of "record_handler t" ?r1 h1] upd ok
  have live: "get_record (record_handler t) (rid record) \<noteq> None"
    and h1: "h1 = set_slot (record_handler t) (rid record) (Some (rec_data ?r1))" by auto
  from i ok t2 live h1 show ?thesis by auto
qed

lemma offsets_from_nth:
  "c < length ls \<Longrightarrow> offsets_from off ls ! c = off + sum_list (take c ls)"
  by (induction ls arbitrary: off c) (auto simp: nth_Cons split: nat.splits)

lemma sum_list_take_mono: "k \<le> k' \<Longrightarrow> sum_list (take k ls) \<le> sum_list (take k' (ls :: nat list))"
proof -
  assume "k \<le> k'"
  then have "take k' ls = take k ls @ take (k' - k) (drop k ls)"
    by (metis le_add_diff_inverse take_add)
  then show ?thesis by simp
qed

lemma sum_list_take_Suc:
  "c < length ls \<Longrightarrow> sum_list (take (Suc c) ls) = sum_list (take c ls) + (ls ! c :: nat)"
  by (simp add: take_Suc_conv_app_nth)

lemma layout_offset:
  assumes "wf_meta m" "c < field_num m"
  shows "field_offset (field_metas m ! c) = sum_list (take c (map field_len (field_metas m)))"
proof -
  from assms have "field_offset (field_metas m ! c) = map field_offset (field_metas m) ! c"
    by (simp add: field_num_def)
  also have "\<dots> = offsets_from 0 (map field_len (field_metas m)) ! c"
    using assms by (simp add: wf_meta_def)
  finally show ?thesis using assms by (simp add: offsets_from_nth field_num_def)
qed

lemma layout_end:
  assumes "wf_meta m" "c < field_num m"
  shows "field_offset (field_metas m ! c) + field_len (field_metas m ! c)
           = sum_list (take (Suc c) (map field_len (field_metas m)))"
  using layout_offset [OF assms] assms(2)
  by (simp add: sum_list_take_Suc field_num_def)

lemma layout_ordered:
  assumes "wf_meta m" "c < c'" "c' < field_num m"
  shows "field_offset (field_metas m ! c) + field_len (field_metas m ! c)
           \<le> field_offset (field_metas m ! c')"
proof -
  from assms have c: "c < field_num m" by simp
  show ?thesis
    unfolding layout_end [OF assms(1) c] layout_offset [OF assms(1,3)]
    using assms(2) by (intro sum_list_take_mono) simp
qed

lemma layout_below_bitmap:
  assumes "wf_meta m" "c < field_num m"
  shows "field_offset (field_metas m ! c) + field_len (field_metas m ! c) \<le> null_field_index m"
proof -
  from assms have n: "field_num m - 1 < field_num m" by simp
  have "null_field_index m = sum_list (take (Suc (field_num m - 1)) (map field_len (field_metas m)))"
    using layout_end [OF assms(1) n] by (simp add: null_field_index_def Let_def)
  moreover have "Suc c \<le> Suc (field_num m - 1)" using assms(2) by simp
  ultimately show ?thesis
    unfolding layout_end [OF assms]
    by (simp only: sum_list_take_mono)
qed

lemma length_updated_data [simp]: "length (updated_data j m i v bytes) = length bytes"
  by (simp add: updated_data_def Let_def)

lemma updated_data_nth:
  assumes "1 \<le> i" "p < length bytes"
  shows "updated_data j m i v bytes ! p =
     (if p = null_field_index m + (i - 1) then bool_byte (is_null v)
      else if field_offset (field_metas m ! i) \<le> p
              \<and> p < field_offset (field_metas m ! i) + field_len (field_metas m ! i)
           then read_bytes j (data v) (field_len (field_metas m ! i))
                  ! (p - field_offset (field_metas m ! i))
      else bytes ! p)"
proof -
  from assms(1) have pos: "\<not> int (null_field_index m) + int i - 1 < 0"
    and n: "nat (int (null_field_index m) + int i - 1) = null_field_index m + (i - 1)"
    by auto
  have "updated_data j m i v bytes =
      memcpy (memcpy bytes (field_offset (field_metas m ! i))
                (read_bytes j (data v) (field_len (field_metas m ! i))))
        (null_field_index m + (i - 1)) [bool_byte (is_null v)]"
    unfolding updated_data_def Let_def by (simp only: pos if_False n)
  then show ?thesis
    using assms(2) by (auto simp: nth_memcpy)
qed

lemma get_record_set_slot_other:
  "r' \<noteq> r \<Longrightarrow> get_record (set_slot h r v) (r' :: RID) = get_record h r'"
  by (cases r, cases r') (auto simp: get_record_set_slot)

lemma get_record_set_slot_same:
  "get_record h r \<noteq> None \<Longrightarrow> get_record (set_slot h r v) r = v"
proof -
  assume "get_record h r \<noteq> None"
  then have "page_num r < length (pages h) \<and> slot_num r < length (pages h ! page_num r)"
    by (auto simp: get_record_def split: if_splits)
  then show ?thesis by (simp add: get_record_set_slot)
qed

section \<open>Atomicity of insertion\<close>

text \<open>
  Claim C2. Whenever \<open>insert_record\<close> returns a code other than \<open>SUCCESS\<close>, in a
  table whose index entries all point to live records, the table is as it was before
  the call: the metadata and every index are equal to what they were, and the heap
  holds the same live records at the same RIDs. (When the failure comes after the
  heap insertion, this is the work of the compensating removals.)
\<close>

theorem insert_record_atomic:
  assumes inv: "index_rids_live t"
    and ins: "insert_record j trx t record = (rc, trx', t', record')"
    and rc: "rc \<noteq> SUCCESS"
  shows "table_meta t' = table_meta t \<and> indexes t' = indexes t
     \<and> live_records (record_handler t') = live_records (record_handler t)
     \<and> (\<forall>r. get_record (record_handler t') r = get_record (record_handler t) r)"
proof -
  let ?record1 = "case trx of None \<Rightarrow> record | Some x \<Rightarrow> init_trx_info x (table_meta t) record"
  let ?sz = "record_size (table_meta t) + field_num (table_meta t)"
  obtain rc0 h1 r where hi: "handler_insert_record j (record_handler t) (rec_data ?record1) ?sz = (rc0, h1, r)"
    by (cases "handler_insert_record j (record_handler t) (rec_data ?record1) ?sz")
  show ?thesis
  proof (cases "rc0 = SUCCESS")
    case False
    with ins hi have "t' = t" by (simp add: insert_record_def Let_def)
    then show ?thesis by simp
  next
    case True
    note hi' = hi [unfolded True]
    obtain rc2 h2 where hd: "handler_delete_record h1 r = (rc2, h2)"
      by (cases "handler_delete_record h1 r")
    note undo = insert_then_delete [OF hi' hd]
    let ?record2 = "?record1\<lparr>rid := r\<rparr>"
    obtain rc_trx trx1 where tr: "(case trx of None \<Rightarrow> (SUCCESS, None)
         | Some x \<Rightarrow> (case trx_insert_record x ?record2 of (rc', x') \<Rightarrow> (rc', Some x'))) = (rc_trx, trx1)"
      by (cases "(case trx of None \<Rightarrow> (SUCCESS, None)
         | Some x \<Rightarrow> (case trx_insert_record x ?record2 of (rc', x') \<Rightarrow> (rc', Some x')))")
    show ?thesis
    proof (cases "rc_trx = SUCCESS")
      case False
      with ins hi' tr hd have "t' = t\<lparr>record_handler := h2\<rparr>"
        by (simp add: insert_record_def Let_def)
      with undo show ?thesis by simp
    next
      case trx_ok: True
      obtain rc_idx idxs1 where ii: "insert_entry_of_indexes (indexes t) (rec_data ?record2) r = (rc_idx, idxs1)"
        by (cases "insert_entry_of_indexes (indexes t) (rec_data ?record2) r")
      from ins hi' tr trx_ok ii rc have bad: "rc_idx \<noteq> SUCCESS"
        by (auto simp: insert_record_def Let_def)
      obtain rc3 idxs2 where dd: "delete_entry_of_indexes idxs1 (rec_data ?record2) r True = (rc3, idxs2)"
        by (cases "delete_entry_of_indexes idxs1 (rec_data ?record2) r True")
      from ins hi' tr trx_ok ii bad dd hd
      have t': "t' = t\<lparr>record_handler := h2, indexes := idxs2\<rparr>"
        by (simp add: insert_record_def Let_def)
      have "idxs2 = indexes t"
        using insert_then_delete_entries [OF live_no_entry [OF inv handler_insert_fresh [OF hi']] ii,
            of SUCCESS] dd
        by (simp add: delete_entry_of_indexes_def)
      with t' undo show ?thesis by simp
    qed
  qed
qed

theorem insert_record_atomic_witness:
  "index_rids_live example_indexed
   \<and> fst (insert_record example_junk (Some example_trx) example_indexed example_record) = IOERR
   \<and> indexes (fst (snd (snd (insert_record example_junk (Some example_trx) example_indexed
                               example_record)))) = indexes example_indexed
   \<and> live_records (record_handler (fst (snd (snd (insert_record example_junk (Some example_trx)
                               example_indexed example_record)))))
       = live_records (record_handler example_indexed)"
proof -
  let ?X = "insert_record example_junk (Some example_trx) example_indexed example_record"
  have inv: "index_rids_live example_indexed" by code_simp
  have rc: "fst ?X = IOERR" by code_simp
  have eq: "?X = (fst ?X, fst (snd ?X), fst (snd (snd ?X)), snd (snd (snd ?X)))" by simp
  from insert_record_atomic [OF inv eq] rc inv show ?thesis by simp
qed

section \<open>CHARS values longer than the column\<close>

text \<open>
  Claim C5. When value \<open>i\<close> of a row is a CHARS value for a CHARS column and its
  string is longer than the declared length of the column, and the values before it
  are legal, inserting the row returns \<open>SCHEMA_FIELD_MISSING\<close> and leaves the
  transaction and the whole table (heap and indexes) unchanged. A CHARS value whose
  string is no longer than the column passes the legality check.
\<close>

theorem chars_too_long_rejected:
  assumes "i < length values"
    and "\<forall>k<i. is_legal (values ! k)
            (field_metas (table_meta t) ! (k + sys_field_num (table_meta t))) = SUCCESS"
    and "type (values ! i) = CHARS"
    and "field_type (field_metas (table_meta t) ! (i + sys_field_num (table_meta t))) = CHARS"
    and "field_len (field_metas (table_meta t) ! (i + sys_field_num (table_meta t)))
           < strlen (data (values ! i))"
  shows "insert_record_values j trx t values = (SCHEMA_FIELD_MISSING, trx, t)
     \<and> (\<forall>v f. type v = CHARS \<and> field_type f = CHARS \<and> strlen (data v) \<le> field_len f
            \<longrightarrow> is_legal v f = SUCCESS)"
proof -
  let ?m = "table_meta t"
  have il: "is_legal (values ! i) (field_metas ?m ! (0 + i + sys_field_num ?m)) = SCHEMA_FIELD_MISSING"
    using assms(3,4,5) by (simp add: is_legal_def chars_legal_def)
  have "check_values ?m 0 values = SCHEMA_FIELD_MISSING"
    by (rule check_values_first_illegal [OF assms(1) _ il]) (use assms(2) in simp_all)
  then have "fst (make_record j ?m values) = SCHEMA_FIELD_MISSING"
    by (simp add: make_record_def Let_def)
  then have a: "insert_record_values j trx t values = (SCHEMA_FIELD_MISSING, trx, t)"
    using assms(1) by (auto simp: insert_record_values_def split: prod.splits)
  have b: "\<forall>v f. type v = CHARS \<and> field_type f = CHARS \<and> strlen (data v) \<le> field_len f
            \<longrightarrow> is_legal v f = SUCCESS"
    by (simp add: is_legal_def chars_legal_def)
  from a b show ?thesis by simp
qed

theorem chars_too_long_rejected_witness:
  "insert_record_values example_junk (Some example_trx) example_indexed
      [value_init_integer 3 False, value_init_string ''toolong'' False]
     = (SCHEMA_FIELD_MISSING, Some example_trx, example_indexed)
   \<and> is_legal (value_init_string ''foo'' False) (field_metas example_meta ! 2) = SUCCESS"
proof -
  let ?vs = "[value_init_integer 3 False, value_init_string ''toolong'' False]"
  have 1: "(1::nat) < length ?vs" by simp
  have 2: "\<forall>k<1. is_legal (?vs ! k)
            (field_metas (table_meta example_indexed) ! (k + sys_field_num (table_meta example_indexed)))
             = SUCCESS"
    by code_simp
  have 3: "type (?vs ! 1) = CHARS" by code_simp
  have 4: "field_type (field_metas (table_meta example_indexed)
              ! (1 + sys_field_num (table_meta example_indexed))) = CHARS" by code_simp
  have 5: "field_len (field_metas (table_meta example_indexed)
              ! (1 + sys_field_num (table_meta example_indexed))) < strlen (data (?vs ! 1))"
    by code_simp
  have 6: "type (value_init_string ''foo'' False) = CHARS
     \<and> field_type (field_metas example_meta ! 2) = CHARS
     \<and> strlen (data (value_init_string ''foo'' False)) \<le> field_len (field_metas example_meta ! 2)"
    by code_simp
  from chars_too_long_rejected [OF 1 2 3 4 5, of example_junk "Some example_trx"] 6
  show ?thesis by blast
qed

section \<open>The length of a stored record\<close>

text \<open>
  Claim C3, at the row \<open>(3, "baz")\<close> of the example table. \<open>make_record\<close> succeeds
  and its buffer has \<open>record_size + value_num = 16\<close> bytes; \<open>insert_record\<close> asks the
  record handler for \<open>record_size + field_num = 17\<close> bytes, so the stored record has
  17 bytes and its last byte was read past the end of the buffer (the \<open>!\<close> of the
  example junk). The two lengths differ by the number of system fields.
\<close>

theorem make_record_buffer_shorter_than_stored:
  "fst (make_record example_junk example_meta
          [value_init_integer 3 False, value_init_string ''baz'' False]) = SUCCESS
   \<and> length (rec_data example_record) = 16
   \<and> record_size example_meta + field_num example_meta = 17
   \<and> map (\<lambda>r. length (rec_data r))
        (live_records (record_handler (fst (snd (snd
           (insert_record example_junk None example_empty example_record)))))) = [17]
   \<and> map (\<lambda>r. last (rec_data r))
        (live_records (record_handler (fst (snd (snd
           (insert_record example_junk None example_empty example_record)))))) = [CHR ''!'']"
  by code_simp

section \<open>Validation of date literals\<close>

text \<open>
  Claim C4. For every string that matches the date format, the date check leaves
  its verdict set exactly when the string denotes a packed integer in
  \<open>[19700101, 20380131]\<close> that is a possible Gregorian date; \<open>value_init_string\<close>
  makes it a DATES value exactly then, and a CHARS value otherwise. A row that
  carries an impossible date for a DATE column is not inserted: \<open>insert_record\<close>
  returns an error and the transaction and the table are unchanged.
\<close>

theorem date_validation:
  assumes "check_date_format s"
  shows "(snd (check_date_data_convert s 1) \<noteq> 0) = denotes_valid_date s
     \<and> (type (value_init_string s False) = DATES) = denotes_valid_date s
     \<and> (\<forall>j trx t values i.
           \<not> denotes_valid_date s \<and> i < length values \<and> values ! i = value_init_string s False
           \<and> field_type (field_metas (table_meta t) ! (i + sys_field_num (table_meta t))) = DATES
           \<longrightarrow> fst (insert_record_values j trx t values) \<noteq> SUCCESS
               \<and> snd (insert_record_values j trx t values) = (trx, t))"
proof -
  note iff = date_check_iff [OF assms]
  have ty: "type (value_init_string s False) = (if denotes_valid_date s then DATES else CHARS)"
    using assms iff by (auto simp: value_init_string_def split_beta)
  have ins: "fst (insert_record_values j trx t vs) \<noteq> SUCCESS
               \<and> snd (insert_record_values j trx t vs) = (trx, t)"
    if "\<not> denotes_valid_date s" "i < length vs" "vs ! i = value_init_string s False"
      "field_type (field_metas (table_meta t) ! (i + sys_field_num (table_meta t))) = DATES"
    for j trx t vs i
  proof -
    from that(1) ty have "type (vs ! i) = CHARS" by (simp add: that(3))
    with that(4) have "is_legal (vs ! i)
           (field_metas (table_meta t) ! (i + sys_field_num (table_meta t))) \<noteq> SUCCESS"
      by (simp add: is_legal_def)
    from insert_record_values_illegal [OF that(2) this] show ?thesis .
  qed
  from iff ty ins show ?thesis by auto
qed

theorem date_validation_witness:
  "check_date_format ''2021-02-29'' \<and> snd (check_date_data_convert ''2021-02-29'' 1) = 0
   \<and> \<not> denotes_valid_date ''2021-02-29''
   \<and> insert_record_values example_junk None example_dates [value_init_string ''2021-02-29'' False]
        = (SCHEMA_FIELD_TYPE_MISMATCH, None, example_dates)
   \<and> check_date_format ''2020-2-29'' \<and> snd (check_date_data_convert ''2020-2-29'' 1) = 1
   \<and> denotes_valid_date ''2020-2-29''"
proof -
  have f: "check_date_format ''2021-02-29''" by code_simp
  have g: "check_date_format ''2020-2-29''" by code_simp
  have c: "snd (check_date_data_convert ''2021-02-29'' 1) = 0" by code_simp
  have d: "snd (check_date_data_convert ''2020-2-29'' 1) = 1" by code_simp
  have i: "insert_record_values example_junk None example_dates [value_init_string ''2021-02-29'' False]
        = (SCHEMA_FIELD_TYPE_MISMATCH, None, example_dates)" by code_simp
  from date_validation [OF f] date_validation [OF g] c d i f g show ?thesis by simp
qed

section \<open>What an update changes\<close>

text \<open>
  Claim C10. In a table with the layout of \<open>wf_meta\<close>, when \<open>update_record\<close>
  succeeds for a user column, the record keeps its RID and its length, and every
  byte outside the payload of the named column and outside the NULL flag of that
  column is unchanged. So the payload of every other column (the system field
  among them) and the NULL flag of every other user column are unchanged; the heap
  holds the changed record at the same RID and every other record as before.
\<close>

theorem update_record_frame:
  assumes wf: "wf_meta (table_meta t)"
    and upd: "update_record j trx t record attribute_name v = (SUCCESS, trx', t', record')"
    and idx: "find_field_index_by_name (table_meta t) attribute_name = int i"
    and user: "sys_field_num (table_meta t) \<le> i"
  shows "rid record' = rid record
     \<and> length (rec_data record') = length (rec_data record)
     \<and> (\<forall>p<length (rec_data record).
           \<not> (field_offset (field_metas (table_meta t) ! i) \<le> p
               \<and> p < field_offset (field_metas (table_meta t) ! i)
                       + field_len (field_metas (table_meta t) ! i))
           \<and> p \<noteq> null_flag_pos (table_meta t) i
           \<longrightarrow> rec_data record' ! p = rec_data record ! p)
     \<and> (\<forall>c<field_num (table_meta t). c \<noteq> i \<longrightarrow>
           column_payload (table_meta t) c (rec_data record')
             = column_payload (table_meta t) c (rec_data record))
     \<and> (\<forall>c<field_num (table_meta t). sys_field_num (table_meta t) \<le> c \<and> c \<noteq> i \<longrightarrow>
           null_flag (table_meta t) c (rec_data record')
             = null_flag (table_meta t) c (rec_data record))
     \<and> get_record (record_handler t') (rid record) = Some (rec_data record')
     \<and> (\<forall>r. r \<noteq> rid record \<longrightarrow>
           get_record (record_handler t') r = get_record (record_handler t) r)
     \<and> table_meta t' = table_meta t"
proof -
  let ?m = "table_meta t"
  let ?f = "field_metas ?m ! i"
  let ?d = "rec_data record"
  let ?d' = "updated_data j ?m i v ?d"
  from wf have sys: "sys_field_num ?m = 1" by (simp add: wf_meta_def)
  with user have i1: "1 \<le> i" by simp
  from update_record_success [OF upd] idx
  have i: "i < field_num ?m"
    and r': "record' = record\<lparr>rec_data := ?d'\<rparr>"
    and live: "get_record (record_handler t) (rid record) \<noteq> None"
    and h': "record_handler t' = set_slot (record_handler t) (rid record) (Some ?d')"
    and m': "table_meta t' = ?m"
    by auto
  have fp: "null_flag_pos ?m c = null_field_index ?m + (c - 1)" for c
    by (simp add: null_flag_pos_def sys)
  have bytes: "?d' ! p = ?d ! p"
    if "p < length ?d" "\<not> (field_offset ?f \<le> p \<and> p < field_offset ?f + field_len ?f)"
       "p \<noteq> null_flag_pos ?m i" for p
    using that updated_data_nth [OF i1 that(1), of j ?m v] by (auto simp: fp)
  have payload: "column_payload ?m c ?d' = column_payload ?m c ?d"
    if c: "c < field_num ?m" "c \<noteq> i" for c
  proof -
    let ?g = "field_metas ?m ! c"
    have disj: "field_offset ?g + field_len ?g \<le> field_offset ?f
        \<or> field_offset ?f + field_len ?f \<le> field_offset ?g"
      using layout_ordered [OF wf _ i, of c] layout_ordered [OF wf _ c(1), of i] c(2)
      by (cases "c < i") auto
    have below: "field_offset ?g + field_len ?g \<le> null_field_index ?m"
      by (rule layout_below_bitmap [OF wf c(1)])
    show ?thesis
      unfolding column_payload_def
    proof (rule nth_equalityI)
      show "length (take (field_len ?g) (drop (field_offset ?g) ?d'))
          = length (take (field_len ?g) (drop (field_offset ?g) ?d))" by simp
    next
      fix k assume "k < length (take (field_len ?g) (drop (field_offset ?g) ?d'))"
      then have k: "k < field_len ?g" "field_offset ?g + k < length ?d" by auto
      have "?d' ! (field_offset ?g + k) = ?d ! (field_offset ?g + k)"
        using k disj below by (intro bytes) (auto simp: fp)
      with k show "take (field_len ?g) (drop (field_offset ?g) ?d') ! k
          = take (field_len ?g) (drop (field_offset ?g) ?d) ! k" by simp
    qed
  qed
  have flag: "null_flag ?m c ?d' = null_flag ?m c ?d"
    if c: "c < field_num ?m" "sys_field_num ?m \<le> c" "c \<noteq> i" for c
  proof -
    from c sys i1 have ne: "null_flag_pos ?m c \<noteq> null_flag_pos ?m i" by (simp add: fp)
    have "\<not> (field_offset ?f \<le> null_flag_pos ?m c
              \<and> null_flag_pos ?m c < field_offset ?f + field_len ?f)"
      using layout_below_bitmap [OF wf i] by (simp add: fp)
    with ne show ?thesis by (auto simp: null_flag_def bytes)
  qed
  have same: "get_record (record_handler t') (rid record) = Some (rec_data record')"
    using live by (simp add: h' r' get_record_set_slot_same)
  have others: "get_record (record_handler t') r = get_record (record_handler t) r"
    if "r \<noteq> rid record" for r
    using that by (simp add: h' get_record_set_slot_other)
  from bytes payload flag same others m' show ?thesis by (simp add: r')
qed

theorem update_record_frame_witness:
  "wf_meta (table_meta example_table)
   \<and> fst (update_record example_junk (Some example_trx) example_table example_row ''b''
            (value_init_string ''bar'' False)) = SUCCESS
   \<and> rid (snd (snd (snd (update_record example_junk (Some example_trx) example_table example_row
            ''b'' (value_init_string ''bar'' False))))) = rid example_row
   \<and> column_payload (table_meta example_table) 1
        (rec_data (snd (snd (snd (update_record example_junk (Some example_trx) example_table
            example_row ''b'' (value_init_string ''bar'' False))))))
       = column_payload (table_meta example_table) 1 (rec_data example_row)
   \<and> column_payload (table_meta example_table) 2
        (rec_data (snd (snd (snd (update_record example_junk (Some example_trx) example_table
            example_row ''b'' (value_init_string ''bar'' False))))))
       = ''bar'' @ [CHR 0x00]
   \<and> column_payload (table_meta example_table) 2 (rec_data example_row) = ''foo'' @ [CHR 0x00]"
proof -
  let ?X = "update_record example_junk (Some example_trx) example_table example_row ''b''
              (value_init_string ''bar'' False)"
  have wf: "wf_meta (table_meta example_table)" by code_simp
  have rc: "fst ?X = SUCCESS" by code_simp
  have eq: "?X = (SUCCESS, fst (snd ?X), fst (snd (snd ?X)), snd (snd (snd ?X)))"
    using rc by (metis prod.collapse)
  have idx: "find_field_index_by_name (table_meta example_table) ''b'' = int 2" by code_simp
  have user: "sys_field_num (table_meta example_table) \<le> 2" by code_simp
  have n: "(1::nat) < field_num (table_meta example_table)" by code_simp
  have new: "column_payload (table_meta example_table) 2 (rec_data (snd (snd (snd ?X))))
       = ''bar'' @ [CHR 0x00]" by code_simp
  have old: "column_payload (table_meta example_table) 2 (rec_data example_row)
       = ''foo'' @ [CHR 0x00]" by code_simp
  from update_record_frame [OF wf eq idx user] n wf rc new old show ?thesis by simp
qed

end
